theory Spec2Isabelle
  imports Main "HOL-Library.Sublist"
begin

section \<open>Python strings\<close>

text \<open>
  A Python \<open>str\<close> is a sequence of Unicode code points, and \<open>len\<close>, slicing and the
  \<open>re\<close> module all count code points. A string is therefore a list of code points
  (natural numbers); \<open>ustr\<close> turns an ASCII literal into such a list.
\<close>

type_synonym ustring = "nat list"

definition ustr :: "string \<Rightarrow> ustring" where
  "ustr s = map of_char s"

text \<open>
  \<open>str.strip()\<close> without argument removes leading and trailing whitespace, that is,
  the code points for which \<open>str.isspace\<close> holds (CPython's table of whitespace code
  points: U+0009..U+000D, U+001C..U+0020, U+0085, U+00A0, U+1680, U+2000..U+200A,
  U+2028, U+2029, U+202F, U+205F, U+3000).
\<close>

definition py_isspace :: "nat \<Rightarrow> bool" where
  "py_isspace c \<longleftrightarrow>
     (9 \<le> c \<and> c \<le> 13) \<or> (28 \<le> c \<and> c \<le> 32) \<or> c = 133 \<or> c = 160 \<or> c = 5760 \<or>
     (8192 \<le> c \<and> c \<le> 8202) \<or> c = 8232 \<or> c = 8233 \<or> c = 8239 \<or> c = 8287 \<or> c = 12288"

definition strip_by :: "(nat \<Rightarrow> bool) \<Rightarrow> ustring \<Rightarrow> ustring" where
  "strip_by P s = rev (dropWhile P (rev (dropWhile P s)))"

definition py_strip :: "ustring \<Rightarrow> ustring" where
  "py_strip s = strip_by py_isspace s"

section \<open>sanitize_filename\<close>

text \<open>
  The character class \<^verbatim>\<open>[<>:"/\\|?*\x00-\x1F]\<close> of the first substitution: the nine
  punctuation characters and the code points 0 to 31.
\<close>

definition invalid_char :: "nat \<Rightarrow> bool" where
  "invalid_char c \<longleftrightarrow>
     c = 60 \<or> c = 62 \<or> c = 58 \<or> c = 34 \<or> c = 47 \<or> c = 92 \<or> c = 124 \<or> c = 63 \<or> c = 42 \<or> c \<le> 31"

definition underscore :: nat where
  "underscore = 95"

text \<open>\<^verbatim>\<open>re.sub(r'[<>:"/\\|?*\x00-\x1F]', '_', title)\<close>\<close>

definition replace_invalid :: "ustring \<Rightarrow> ustring" where
  "replace_invalid s = map (\<lambda>c. if invalid_char c then underscore else c) s"

text \<open>\<^verbatim>\<open>re.sub(r'_+', '_', s)\<close>: every maximal run of underscores becomes one underscore.\<close>

fun collapse_underscores :: "ustring \<Rightarrow> ustring" where
  "collapse_underscores [] = []"
| "collapse_underscores [c] = [c]"
| "collapse_underscores (c # d # cs) =
     (if c = underscore \<and> d = underscore then collapse_underscores (d # cs)
      else c # collapse_underscores (d # cs))"

definition untitled :: ustring where
  "untitled = ustr ''untitled.pdf''"

definition sanitize_filename :: "ustring \<Rightarrow> ustring" where
  "sanitize_filename title0 =
     (let title = py_strip title0 in
      if title = [] then untitled
      else
        let sanitized = replace_invalid title;
            sanitized = strip_by (\<lambda>c. c = underscore) (collapse_underscores sanitized);
            truncated = take 150 sanitized
        in if truncated = [] then untitled else truncated)"

text \<open>
  Properties of a sanitised name that the proofs below keep track of: it has no two
  adjacent underscores, and it is non-empty, short, free of invalid characters and
  does not start with an underscore.
\<close>

fun no_run :: "ustring \<Rightarrow> bool" where
  "no_run [] = True"
| "no_run [c] = True"
| "no_run (c # d # cs) = ((c \<noteq> underscore \<or> d \<noteq> underscore) \<and> no_run (d # cs))"

definition well_named :: "ustring \<Rightarrow> bool" where
  "well_named y \<longleftrightarrow> y \<noteq> [] \<and> length y \<le> 150 \<and> list_all (\<lambda>c. \<not> invalid_char c) y \<and>
     no_run y \<and> hd y \<noteq> underscore"

section \<open>Paths (posixpath)\<close>

definition sep :: nat where
  "sep = 47"

definition py_startswith :: "ustring \<Rightarrow> ustring \<Rightarrow> bool" where
  "py_startswith s pre \<longleftrightarrow> take (length pre) s = pre"

definition py_endswith :: "ustring \<Rightarrow> ustring \<Rightarrow> bool" where
  "py_endswith s suf \<longleftrightarrow> length suf \<le> length s \<and> drop (length s - length suf) s = suf"

text \<open>\<open>os.path.basename(p)\<close>: what follows the last slash.\<close>

definition basename :: "ustring \<Rightarrow> ustring" where
  "basename p = rev (takeWhile (\<lambda>c. c \<noteq> sep) (rev p))"

text \<open>
  \<open>os.path.dirname(p)\<close>: everything up to and including the last slash; trailing
  slashes are then removed unless the head consists of slashes only.
\<close>

definition dirname :: "ustring \<Rightarrow> ustring" where
  "dirname p =
     (let head = rev (dropWhile (\<lambda>c. c \<noteq> sep) (rev p)) in
      if head \<noteq> [] \<and> head \<noteq> replicate (length head) sep
      then rev (dropWhile (\<lambda>c. c = sep) (rev head)) else head)"

text \<open>\<open>os.path.join(a, b)\<close> with two arguments.\<close>

definition path_join :: "ustring \<Rightarrow> ustring \<Rightarrow> ustring" where
  "path_join a b =
     (if py_startswith b [sep] then b
      else if a = [] \<or> py_endswith a [sep] then a @ b
      else a @ [sep] @ b)"

section \<open>Exceptions, log records and observable events\<close>

text \<open>
  The exception classes that occur; all of them derive from \<open>Exception\<close>.
  \<open>RequestException\<close> stands for \<open>requests.RequestException\<close> and its subclasses,
  \<open>ExitCodeException\<close> for \<open>ocrmypdf.exceptions.ExitCodeException\<close> and its subclasses
  (the errors \<open>ocrmypdf.ocr\<close> raises), \<open>OSError\<close> for the operating system's errors
  other than \<open>FileNotFoundError\<close> (a name too long, a permission denied, a full disk).
\<close>

datatype exn =
    TimeoutExpired | FileNotFoundError | OSError | ExitCodeException | RequestException
  | RetryError | AttributeError | TypeError | KeyError | IndexError | JSONDecodeError
  | OtherException

datatype level = INFO | WARNING | ERROR

text \<open>One constructor per format string of a \<open>logging\<close> call, with the interpolated values.\<close>

datatype msg =
    PdftotextTimedOut ustring
  | PdftotextNotFound
  | FallbackToOcr
  | PdftotextFailedAfterOcr ustring
  | OcrmypdfFailed exn
  | PdftotextTimedOutAfterOcr
  | ApiRequestFailed int
  | ApiResponse ustring
  | ErrorParsing exn
  | NoTextExtracted
  | FailedToGenerate ustring
  | DryRunWouldRename ustring ustring
  | RenamedTo ustring
  | AlreadyExistsSkipping ustring
  | Processing ustring
  | ErrorProcessing ustring exn

text \<open>
  What the program does to the outside, in order: log records, runs of the external
  tools, requests to the generation service, waits between attempts, and renames.
\<close>

datatype event =
    Log level msg
  | RunPdftotext ustring
  | RunOcr ustring
  | RunPdftotextOcr ustring
  | Post ustring ustring
  | Sleep nat
  | OsRename ustring ustring

section \<open>The collaborators\<close>

text \<open>The outcome of \<open>subprocess.run\<close>: a completed process (return code, stdout, stderr) or an exception.\<close>

datatype proc = Completed int ustring ustring | ProcRaises exn

datatype json =
    JNull | JBool bool | JNumber int | JString ustring
  | JArray "json list" | JObject "(ustring \<times> json) list"

text \<open>
  The outcome of \<open>requests.post\<close>: an exception, or a response with its
  \<open>status_code\<close>, its \<open>text\<close> and what \<open>response.json()\<close> returns or raises.
\<close>

datatype post_outcome = PostRaises exn | Response int ustring "exn + json"

text \<open>
  The environment of one run. \<open>pdftotext p\<close> is the outcome of running pdftotext on
  page 1 of \<open>p\<close>; \<open>ocrmypdf_ocr p\<close> is the exception \<open>ocrmypdf.ocr\<close> raises on \<open>p\<close>, if any;
  \<open>pdftotext_ocr p\<close> is the outcome of pdftotext on the OCR output made from \<open>p\<close>;
  \<open>requests_post n url text\<close> is the outcome of the \<open>n\<close>-th request the process makes
  (counted from 0); \<open>rename_error src dst\<close> is the error with which the operating
  system refuses to rename \<open>src\<close> to \<open>dst\<close>, if it does; \<open>str_lower\<close> is \<open>str.lower\<close>.
\<close>

record env =
  pdftotext :: "ustring \<Rightarrow> proc"
  ocrmypdf_ocr :: "ustring \<Rightarrow> exn option"
  pdftotext_ocr :: "ustring \<Rightarrow> proc"
  requests_post :: "nat \<Rightarrow> ustring \<Rightarrow> ustring \<Rightarrow> post_outcome"
  rename_error :: "ustring \<Rightarrow> ustring \<Rightarrow> exn option"
  str_lower :: "ustring \<Rightarrow> ustring"

text \<open>
  The state: the files (path to contents), the events so far, and the number of
  requests made so far.
\<close>

record world =
  fs :: "ustring \<rightharpoonup> nat list"
  trace :: "event list"
  requests_made :: nat

definition emit :: "event \<Rightarrow> world \<Rightarrow> world" where
  "emit e w = w\<lparr>trace := trace w @ [e]\<rparr>"

definition log :: "level \<Rightarrow> msg \<Rightarrow> world \<Rightarrow> world" where
  "log l m w = emit (Log l m) w"

section \<open>extract_text_from_first_page\<close>

text \<open>
  The second \<open>try\<close> block: OCR into a temporary directory, then pdftotext on the
  result. The three \<open>except\<close> clauses guard the whole block, so they apply to an
  exception of \<open>ocrmypdf.ocr\<close> as well as to one of \<open>subprocess.run\<close>, and they are
  tried in order. The first names \<open>ocrmypdf.exceptions.ExitCodeError\<close>. The library
  defines no such class (its class is \<open>ExitCodeException\<close>), and the name is looked up
  only when an exception reaches the clause: the lookup then raises \<open>AttributeError\<close>,
  which leaves the function in place of the exception being handled, and the clauses
  for \<open>TimeoutExpired\<close> and \<open>FileNotFoundError\<close> are not reached. The temporary
  directory is created and removed inside the block and leaves the files as they were.
\<close>

definition lookup_ExitCodeError :: "exn + exn" where
  "lookup_ExitCodeError = Inl AttributeError"

definition ocr_handlers :: "exn \<Rightarrow> world \<Rightarrow> (exn + ustring) \<times> world" where
  "ocr_handlers e w =
     (case lookup_ExitCodeError of
        Inl attribute_error \<Rightarrow> (Inl attribute_error, w)
      | Inr exit_code_error \<Rightarrow>
          if e = exit_code_error then (Inr [], log ERROR (OcrmypdfFailed e) w)
          else if e = TimeoutExpired then (Inr [], log WARNING PdftotextTimedOutAfterOcr w)
          else if e = FileNotFoundError then (Inr [], log ERROR PdftotextNotFound w)
          else (Inl e, w))"

definition ocr_fallback :: "env \<Rightarrow> ustring \<Rightarrow> world \<Rightarrow> (exn + ustring) \<times> world" where
  "ocr_fallback env pdf_path w0 =
     (let w1 = log INFO FallbackToOcr w0;
          w2 = emit (RunOcr pdf_path) w1
      in case ocrmypdf_ocr env pdf_path of
           Some e \<Rightarrow> ocr_handlers e w2
         | None \<Rightarrow>
             (let w3 = emit (RunPdftotextOcr pdf_path) w2
              in case pdftotext_ocr env pdf_path of
                   ProcRaises e \<Rightarrow> ocr_handlers e w3
                 | Completed returncode out err \<Rightarrow>
                     if returncode = 0 then (Inr (py_strip out), w3)
                     else (Inr [], log ERROR (PdftotextFailedAfterOcr err) w3)))"

definition extract_text_from_first_page :: "env \<Rightarrow> ustring \<Rightarrow> world \<Rightarrow> (exn + ustring) \<times> world" where
  "extract_text_from_first_page env pdf_path w0 =
     (let w1 = emit (RunPdftotext pdf_path) w0
      in case pdftotext env pdf_path of
           Completed returncode out err \<Rightarrow>
             if returncode = 0 \<and> 50 \<le> length (py_strip out) then (Inr (py_strip out), w1)
             else ocr_fallback env pdf_path w1
         | ProcRaises e \<Rightarrow>
             if e = TimeoutExpired
             then ocr_fallback env pdf_path (log WARNING (PdftotextTimedOut pdf_path) w1)
             else if e = FileNotFoundError then (Inr [], log ERROR PdftotextNotFound w1)
             else (Inl e, w1))"

section \<open>generate_title_with_gemini\<close>

definition prompt :: ustring where
  "prompt = concat
    [ustr ''You are tasked to suggest a filename for a PDF document. The provided text '',
     ustr ''is EXTRACTED FROM THE FIRST PAGE ONLY'',
     [8212],
     ustr ''it may be incomplete, OCR-generated (possibly with errors), or insufficient '',
     ustr ''to fully represent the document. Your goal: Propose a concise, descriptive '',
     ustr ''title as the filename in the document's ORIGINAL LANGUAGE. Make it filename-safe '',
     ustr ''(no special characters, spaces allowed if simple). Keep under 80 characters. '',
     ustr ''Respond ONLY with the filename text'',
     [8212],
     ustr ''NO explanations, NO prefixes/suffixes like 'Title:', NO markdown, NO additional '',
     ustr ''text. Just the clean filename. Guidelines: - If text is gibberish, unclear, '',
     ustr ''too brief (<20 characters), or insufficient to suggest a meaningful filename, '',
     ustr ''respond ONLY with 'Insufficient-Content'. - For research or academic papers: '',
     ustr ''Use 'Author1&Author2-Year-HumanTitle' format (e.g., 'Smith&Dong-2023-NeuralNets'). '',
     ustr ''Use 'et al.' for 3+ authors. - For other documents (invoices, legal, bank '',
     ustr ''reports, pensions, court decisions): Use structured, key-based titles. Examples: '',
     ustr ''  - Invoices: 'ACME-Invoice-123-Dec2023' (good); 'This is an invoice for '',
     ustr ''payment received from customer x on date y' (bad'',
     [8212],
     ustr ''too verbose).   - Legal Documents: 'Agreement-Smith-Vs-Jones-2023' (good); 'Long '',
     ustr ''legal agreement between parties A and B dated some time ago without specifics' '',
     ustr ''(bad).   - Bank Reports: 'Bank-Statement-HSBC-Nov2023' (good); 'Monthly '',
     ustr ''bank report showing transactions for the past 30 days including all fees '',
     ustr ''and interest' (bad).   - Pensions Yearly Reports: 'Pension-Report-2023-National' '',
     ustr ''(good); 'Detailed yearly pension summary for retirement fund with charts '',
     ustr ''and projections for future benefits' (bad).   - Court Decisions: 'Court-Ruling-Case-456-2023' '',
     ustr ''(good); 'The court has decided on this legal matter after consideration '',
     ustr ''of all evidence presented by both sides in a complicated case' (bad). Analyze '',
     ustr ''the text below and output ONLY the filename.'']"

definition default_model :: ustring where
  "default_model = ustr ''gemini-1.5-flash''"

definition request_url :: "ustring \<Rightarrow> ustring \<Rightarrow> ustring" where
  "request_url model api_key =
     ustr ''https://generativelanguage.googleapis.com/v1beta/models/'' @ model @
     ustr '':generateContent?key='' @ api_key"

subsection \<open>Python's operations on the parsed response\<close>

definition try_bind :: "exn + 'a \<Rightarrow> ('a \<Rightarrow> exn + 'b) \<Rightarrow> exn + 'b" where
  "try_bind r f = (case r of Inl e \<Rightarrow> Inl e | Inr v \<Rightarrow> f v)"

fun is_substring :: "ustring \<Rightarrow> ustring \<Rightarrow> bool" where
  "is_substring k [] = (k = [])"
| "is_substring k (c # cs) = (py_startswith (c # cs) k \<or> is_substring k cs)"

text \<open>\<open>k in x\<close> for a string \<open>k\<close>: key of a dict, element of a list, substring of a string.\<close>

fun py_in :: "ustring \<Rightarrow> json \<Rightarrow> exn + bool" where
  "py_in k (JObject kvs) = Inr (k \<in> set (map fst kvs))"
| "py_in k (JArray xs) = Inr (JString k \<in> set xs)"
| "py_in k (JString s) = Inr (is_substring k s)"
| "py_in k _ = Inl TypeError"

text \<open>\<open>x[k]\<close> for a string \<open>k\<close>: only a dict can be indexed by a string.\<close>

fun py_getitem_key :: "json \<Rightarrow> ustring \<Rightarrow> exn + json" where
  "py_getitem_key (JObject kvs) k = (case map_of kvs k of None \<Rightarrow> Inl KeyError | Some v \<Rightarrow> Inr v)"
| "py_getitem_key _ k = Inl TypeError"

fun py_len :: "json \<Rightarrow> exn + nat" where
  "py_len (JObject kvs) = Inr (length kvs)"
| "py_len (JArray xs) = Inr (length xs)"
| "py_len (JString s) = Inr (length s)"
| "py_len _ = Inl TypeError"

text \<open>\<open>x[0]\<close>: a dict parsed from JSON has string keys only, so \<open>0\<close> is never a key.\<close>

fun py_getitem_0 :: "json \<Rightarrow> exn + json" where
  "py_getitem_0 (JArray []) = Inl IndexError"
| "py_getitem_0 (JArray (x # xs)) = Inr x"
| "py_getitem_0 (JString []) = Inl IndexError"
| "py_getitem_0 (JString (c # cs)) = Inr (JString [c])"
| "py_getitem_0 (JObject kvs) = Inl KeyError"
| "py_getitem_0 _ = Inl TypeError"

fun py_strip_method :: "json \<Rightarrow> exn + ustring" where
  "py_strip_method (JString s) = Inr (py_strip s)"
| "py_strip_method _ = Inl AttributeError"

text \<open>The body of the \<open>try\<close> of generate_title_with_gemini, before its \<open>except\<close>.\<close>

definition response_title :: "exn + json \<Rightarrow> exn + ustring" where
  "response_title js =
     try_bind js (\<lambda>response_data.
     try_bind (py_in (ustr ''candidates'') response_data) (\<lambda>present.
       if present then
         try_bind (py_getitem_key response_data (ustr ''candidates'')) (\<lambda>candidates.
         try_bind (py_len candidates) (\<lambda>n.
           if 0 < n then
             try_bind (py_getitem_0 candidates) (\<lambda>candidate.
             try_bind (py_getitem_key candidate (ustr ''content'')) (\<lambda>content.
             try_bind (py_getitem_key content (ustr ''parts'')) (\<lambda>parts.
             try_bind (py_getitem_0 parts) (\<lambda>part.
             try_bind (py_getitem_key part (ustr ''text'')) (\<lambda>text_content.
             py_strip_method text_content)))))
           else Inr []))
       else Inr []))"

text \<open>The function as written, without its decorator: one request.\<close>

definition generate_title_body :: "env \<Rightarrow> ustring \<Rightarrow> ustring \<Rightarrow> ustring \<Rightarrow> world \<Rightarrow> (exn + ustring) \<times> world" where
  "generate_title_body env pdf_text api_key model w0 =
     (let full_text = prompt @ [10] @ pdf_text;
          url = request_url model api_key;
          w1 = emit (Post url full_text) (w0\<lparr>requests_made := Suc (requests_made w0)\<rparr>)
      in case requests_post env (requests_made w0) url full_text of
           PostRaises e \<Rightarrow> (Inl e, w1)
         | Response status_code text js \<Rightarrow>
             if status_code = 200
             then (case response_title js of
                     Inl e \<Rightarrow> (Inr [], log ERROR (ErrorParsing e) w1)
                   | Inr title \<Rightarrow> (Inr title, w1))
             else (Inr [], log ERROR (ApiResponse text) (log ERROR (ApiRequestFailed status_code) w1)))"

text \<open>
  The decorator \<^verbatim>\<open>@retry(stop=stop_after_attempt(3), wait=wait_exponential(multiplier=1,
  min=4, max=10), retry=retry_if_exception_type(requests.RequestException))\<close> of the
  tenacity library: the call is repeated while it raises a \<open>RequestException\<close>; any other
  exception and any returned value end the loop at once. After the attempt numbered
  \<open>n\<close> (from 1) has failed, the loop stops if \<open>n \<ge> 3\<close> and, \<open>reraise\<close> not being
  set, raises \<open>RetryError\<close>; otherwise it sleeps
  \<open>max(max(0, min), min(multiplier * 2 ** (n - 1), max))\<close> and tries again.
\<close>

definition wait_exponential :: "nat \<Rightarrow> nat" where
  "wait_exponential attempt_number = max (max 0 4) (min (1 * 2 ^ (attempt_number - 1)) 10)"

function retrying :: "env \<Rightarrow> ustring \<Rightarrow> ustring \<Rightarrow> ustring \<Rightarrow> nat \<Rightarrow> world \<Rightarrow> (exn + ustring) \<times> world" where
  "retrying env pdf_text api_key model attempt_number w =
     (let (r, w1) = generate_title_body env pdf_text api_key model w in
      if r = Inl RequestException \<and> attempt_number < 3
      then retrying env pdf_text api_key model (Suc attempt_number)
             (emit (Sleep (wait_exponential attempt_number)) w1)
      else if r = Inl RequestException then (Inl RetryError, w1)
      else (r, w1))"
  by pat_completeness auto
termination
  by (relation "measure (\<lambda>(env, pdf_text, api_key, model, attempt_number, w). 3 - attempt_number)") auto

declare retrying.simps [simp del]

definition generate_title_with_gemini :: "env \<Rightarrow> ustring \<Rightarrow> ustring \<Rightarrow> ustring \<Rightarrow> world \<Rightarrow> (exn + ustring) \<times> world" where
  "generate_title_with_gemini env pdf_text api_key model w = retrying env pdf_text api_key model 1 w"

section \<open>rename_pdf\<close>

text \<open>
  \<open>os.path.exists(p)\<close> asks whether the path is present. \<open>os.rename(src, dst)\<close>
  raises the operating system's error when it refuses the rename (the destination's
  name is too long, the directory may not be written), raises \<open>FileNotFoundError\<close>
  when the source is missing, and otherwise moves the contents.
\<close>

definition path_exists :: "world \<Rightarrow> ustring \<Rightarrow> bool" where
  "path_exists w p \<longleftrightarrow> p \<in> dom (fs w)"

definition os_rename :: "env \<Rightarrow> ustring \<Rightarrow> ustring \<Rightarrow> world \<Rightarrow> exn + world" where
  "os_rename env src dst w =
     (case rename_error env src dst of
        Some e \<Rightarrow> Inl e
      | None \<Rightarrow>
          (case fs w src of
             None \<Rightarrow> Inl FileNotFoundError
           | Some contents \<Rightarrow>
               Inr (emit (OsRename src dst)
                      (w\<lparr>fs := ((fs w)(src := None))(dst \<mapsto> contents)\<rparr>))))"

definition new_path_of :: "ustring \<Rightarrow> ustring \<Rightarrow> ustring" where
  "new_path_of pdf_path new_title =
     path_join (dirname pdf_path) (sanitize_filename new_title @ ustr ''.pdf'')"

definition rename_pdf :: "env \<Rightarrow> ustring \<Rightarrow> ustring \<Rightarrow> bool \<Rightarrow> ustring \<Rightarrow> world \<Rightarrow> (exn + unit) \<times> world" where
  "rename_pdf env pdf_path api_key dry_run model w0 =
     (case extract_text_from_first_page env pdf_path w0 of
        (Inl e, w1) \<Rightarrow> (Inl e, w1)
      | (Inr pdf_text, w1) \<Rightarrow>
          if pdf_text = [] then (Inr (), log WARNING NoTextExtracted w1)
          else
            (case generate_title_with_gemini env pdf_text api_key model w1 of
               (Inl e, w2) \<Rightarrow> (Inl e, w2)
             | (Inr new_title, w2) \<Rightarrow>
                 if new_title = [] then (Inr (), log WARNING (FailedToGenerate pdf_path) w2)
                 else if dry_run
                 then (Inr (), log INFO (DryRunWouldRename (basename pdf_path) new_title) w2)
                 else
                   (let sanitized_title = sanitize_filename new_title @ ustr ''.pdf'';
                        new_path = path_join (dirname pdf_path) sanitized_title
                    in if path_exists w2 new_path
                       then (Inr (), log WARNING (AlreadyExistsSkipping sanitized_title) w2)
                       else (case os_rename env pdf_path new_path w2 of
                               Inl e \<Rightarrow> (Inl e, w2)
                             | Inr w3 \<Rightarrow> (Inr (), log INFO (RenamedTo new_path) w3)))))"

section \<open>rename_pdfs_in_directory\<close>

text \<open>
  The body of the function is a single \<open>if\<close>; it binds no local \<open>filename\<close>, so the
  name is the module's global, bound by \<^verbatim>\<open>from fileinput import filename\<close> to a
  function object. A function object has no attribute \<open>lower\<close>, and \<open>os.path.join\<close>
  rejects it as a path component.
\<close>

datatype pyobj = PyStr ustring | PyFunction string

definition filename :: pyobj where
  "filename = PyFunction ''fileinput.filename''"

fun lower_method :: "env \<Rightarrow> pyobj \<Rightarrow> exn + ustring" where
  "lower_method env (PyStr s) = Inr (str_lower env s)"
| "lower_method env (PyFunction f) = Inl AttributeError"

fun path_join_obj :: "ustring \<Rightarrow> pyobj \<Rightarrow> exn + ustring" where
  "path_join_obj a (PyStr b) = Inr (path_join a b)"
| "path_join_obj a (PyFunction f) = Inl TypeError"

definition rename_pdfs_in_directory :: "env \<Rightarrow> ustring \<Rightarrow> ustring \<Rightarrow> bool \<Rightarrow> ustring \<Rightarrow> world \<Rightarrow> (exn + unit) \<times> world" where
  "rename_pdfs_in_directory env directory_path api_key dry_run model w0 =
     (case lower_method env filename of
        Inl e \<Rightarrow> (Inl e, w0)
      | Inr lowered \<Rightarrow>
          if py_endswith lowered (ustr ''.pdf'') then
            (case path_join_obj directory_path filename of
               Inl e \<Rightarrow> (Inl e, w0)
             | Inr pdf_path \<Rightarrow>
                 (let w1 = log INFO (Processing pdf_path) w0
                  in case rename_pdf env pdf_path api_key dry_run model w1 of
                       (Inl e, w2) \<Rightarrow> (Inr (), log ERROR (ErrorProcessing pdf_path e) w2)
                     | (Inr u, w2) \<Rightarrow> (Inr (), w2)))
          else (Inr (), w0))"

section \<open>What a run may do to the files\<close>

text \<open>
  The events that record a rename: the call of \<open>os.rename\<close> and the log record that
  reports it. A step is quiet when it leaves the files alone, only adds events, and adds
  none of these.
\<close>

fun is_rename :: "event \<Rightarrow> bool" where
  "is_rename (OsRename src dst) = True"
| "is_rename (Log l (RenamedTo p)) = True"
| "is_rename e = False"

definition quiet :: "world \<Rightarrow> world \<Rightarrow> bool" where
  "quiet w w' \<longleftrightarrow> fs w' = fs w \<and> prefix (trace w) (trace w') \<and>
     filter is_rename (trace w') = filter is_rename (trace w)"

section \<open>The expected shape of a response\<close>

text \<open>
  The specification names the expected payload as
  \<^verbatim>\<open>candidates[0].content.parts[0].text\<close>. \<open>expected_text\<close> follows these words: it
  walks that path through objects and arrays and yields the string found there, or
  nothing when a field is missing or of another kind. It is compared below with
  \<open>response_title\<close>, which follows the code.
\<close>

fun obj_field :: "json \<Rightarrow> ustring \<Rightarrow> json option" where
  "obj_field (JObject kvs) k = map_of kvs k"
| "obj_field j k = None"

fun arr_first :: "json \<Rightarrow> json option" where
  "arr_first (JArray (x # xs)) = Some x"
| "arr_first j = None"

fun str_value :: "json \<Rightarrow> ustring option" where
  "str_value (JString s) = Some s"
| "str_value j = None"

definition expected_text :: "json \<Rightarrow> ustring option" where
  "expected_text response_data =
     Option.bind (obj_field response_data (ustr ''candidates'')) (\<lambda>candidates.
     Option.bind (arr_first candidates) (\<lambda>candidate.
     Option.bind (obj_field candidate (ustr ''content'')) (\<lambda>content.
     Option.bind (obj_field content (ustr ''parts'')) (\<lambda>parts.
     Option.bind (arr_first parts) (\<lambda>part.
     Option.bind (obj_field part (ustr ''text'')) str_value)))))"

definition sentinel :: ustring where
  "sentinel = ustr ''Insufficient-Content''"

section \<open>Example runs\<close>

text \<open>
  Concrete collaborators and files on which the theorems below are instantiated: a
  service that answers every request with the title \<open>t\<close>, a scanned document whose
  text only OCR finds, a service that is unreachable, and one that answers with a
  given status and an empty object.
\<close>

definition gemini_reply :: "ustring \<Rightarrow> json" where
  "gemini_reply t =
     JObject [(ustr ''candidates'',
       JArray [JObject [(ustr ''content'',
         JObject [(ustr ''parts'', JArray [JObject [(ustr ''text'', JString t)]])])]])]"

definition page_text :: ustring where
  "page_text = ustr ''Smith and Dong 2023 paper on neural network pruning techniques...''"

definition example_env :: "ustring \<Rightarrow> env" where
  "example_env t =
     \<lparr>pdftotext = (\<lambda>p. Completed 0 page_text []),
      ocrmypdf_ocr = (\<lambda>p. None),
      pdftotext_ocr = (\<lambda>p. Completed 0 [] []),
      requests_post = (\<lambda>n url body. Response 200 [] (Inr (gemini_reply t))),
      rename_error = (\<lambda>src dst. None),
      str_lower = (\<lambda>s. s)\<rparr>"

definition scanned_env :: env where
  "scanned_env =
     \<lparr>pdftotext = (\<lambda>p. Completed 0 [] []),
      ocrmypdf_ocr = (\<lambda>p. None),
      pdftotext_ocr = (\<lambda>p. Completed 0 page_text []),
      requests_post = (\<lambda>n url body. Response 200 [] (Inr (gemini_reply (ustr ''Report'')))),
      rename_error = (\<lambda>src dst. None),
      str_lower = (\<lambda>s. s)\<rparr>"

definition offline_env :: env where
  "offline_env =
     \<lparr>pdftotext = (\<lambda>p. Completed 0 page_text []),
      ocrmypdf_ocr = (\<lambda>p. None),
      pdftotext_ocr = (\<lambda>p. Completed 0 [] []),
      requests_post = (\<lambda>n url body. PostRaises RequestException),
      rename_error = (\<lambda>src dst. None),
      str_lower = (\<lambda>s. s)\<rparr>"

definition failing_env :: "int \<Rightarrow> env" where
  "failing_env status =
     \<lparr>pdftotext = (\<lambda>p. Completed 0 page_text []),
      ocrmypdf_ocr = (\<lambda>p. None),
      pdftotext_ocr = (\<lambda>p. Completed 0 [] []),
      requests_post = (\<lambda>n url body. Response status [] (Inr (JObject []))),
      rename_error = (\<lambda>src dst. None),
      str_lower = (\<lambda>s. s)\<rparr>"

definition example_world :: world where
  "example_world =
     \<lparr>fs = [ustr ''/d/a.pdf'' \<mapsto> [37, 80, 68, 70], ustr ''/d/Report.pdf'' \<mapsto> [37, 80, 68, 70, 10]],
      trace = [], requests_made = 0\<rparr>"

text \<open>The first service again, in a directory that may not be written.\<close>

definition readonly_env :: "ustring \<Rightarrow> env" where
  "readonly_env t = (example_env t)\<lparr>rename_error := (\<lambda>src dst. Some OSError)\<rparr>"

text \<open>The same files with the sentinel's destination already taken.\<close>

definition occupied_world :: world where
  "occupied_world =
     example_world\<lparr>fs := (fs example_world)(ustr ''/d/Insufficient-Content.pdf'' \<mapsto> [37])\<rparr>"

section \<open>Facts about stripping and collapsing\<close>

lemma rstrip_take: "rev (dropWhile P (rev t)) = take (length t - length (takeWhile P (rev t))) t"
  by (simp add: dropWhile_eq_drop rev_drop)

lemma strip_by_take_drop: "\<exists>i j. strip_by P s = take i (drop j s)"
proof -
  have a: "dropWhile P s = drop (length (takeWhile P s)) s"
    by (simp add: dropWhile_eq_drop)
  show ?thesis unfolding strip_by_def rstrip_take by (subst a) blast
qed

lemma set_strip_by: "set (strip_by P s) \<subseteq> set s"
proof -
  obtain i j where "strip_by P s = take i (drop j s)" using strip_by_take_drop by blast
  then show ?thesis by (metis set_take_subset set_drop_subset subset_trans)
qed

lemma length_strip_by: "length (strip_by P s) \<le> length s"
proof -
  obtain i j where "strip_by P s = take i (drop j s)" using strip_by_take_drop by blast
  then show ?thesis by simp
qed

lemma set_collapse: "set (collapse_underscores s) \<subseteq> set s"
  by (induction s rule: collapse_underscores.induct) auto

lemma collapse_hd: "collapse_underscores (d # cs) \<noteq> [] \<and> hd (collapse_underscores (d # cs)) = d"
  by (induction cs arbitrary: d) auto

lemma no_run_collapse: "no_run (collapse_underscores s)"
proof (induction s rule: collapse_underscores.induct)
  case (3 c d cs)
  obtain l where l: "collapse_underscores (d # cs) = d # l"
    using collapse_hd [of d cs] by (cases "collapse_underscores (d # cs)") auto
  with 3 show ?case by (auto split: if_splits)
qed simp_all

lemma no_run_collapse_id: "no_run s \<Longrightarrow> collapse_underscores s = s"
  by (induction s rule: collapse_underscores.induct) auto

lemma no_run_tl: "no_run (c # s) \<Longrightarrow> no_run s"
  by (cases s) auto

lemma no_run_drop: "no_run s \<Longrightarrow> no_run (drop n s)"
proof (induction n arbitrary: s)
  case (Suc n)
  then show ?case by (cases s) (auto dest: no_run_tl)
qed simp

lemma no_run_take: "no_run s \<Longrightarrow> no_run (take n s)"
proof (induction s arbitrary: n rule: no_run.induct)
  case (3 c d cs)
  show ?case
  proof (cases n)
    case (Suc m)
    note n = this
    show ?thesis
    proof (cases m)
      case (Suc k)
      have "no_run (take m (d # cs))" using 3 by simp
      with 3(2) n Suc show ?thesis by simp
    qed (simp add: n)
  qed simp
qed (auto simp: take_Cons')

lemma no_run_strip_by: "no_run s \<Longrightarrow> no_run (strip_by P s)"
proof -
  assume h: "no_run s"
  obtain i j where "strip_by P s = take i (drop j s)" using strip_by_take_drop by blast
  with h show ?thesis by (simp add: no_run_take no_run_drop)
qed

lemma strip_by_hd: "strip_by P s \<noteq> [] \<Longrightarrow> \<not> P (hd (strip_by P s))"
proof -
  assume ne: "strip_by P s \<noteq> []"
  let ?t = "dropWhile P s"
  have e: "strip_by P s = take (length ?t - length (takeWhile P (rev ?t))) ?t"
    unfolding strip_by_def by (rule rstrip_take)
  from ne e have tne: "?t \<noteq> []" by auto
  from ne e have "hd (strip_by P s) = hd ?t" by (metis hd_take take_eq_Nil not_gr_zero take_0)
  moreover have "\<not> P (hd ?t)" using tne by (rule hd_dropWhile)
  ultimately show ?thesis by simp
qed

lemma strip_by_id: "s \<noteq> [] \<Longrightarrow> \<not> P (hd s) \<Longrightarrow> \<not> P (last s) \<Longrightarrow> strip_by P s = s"
proof -
  assume ne: "s \<noteq> []" and h: "\<not> P (hd s)" and l: "\<not> P (last s)"
  from ne h have a: "dropWhile P s = s" by (cases s) auto
  from ne l have "\<not> P (hd (rev s))" by (simp add: hd_rev)
  with ne have b: "dropWhile P (rev s) = rev s" by (cases "rev s") auto
  show ?thesis by (simp add: strip_by_def a b)
qed

lemmas sanitize_eval = sanitize_filename_def ustr_def py_strip_def strip_by_def py_isspace_def
  replace_invalid_def invalid_char_def underscore_def untitled_def

lemma well_named_untitled: "well_named untitled"
  by (simp add: well_named_def untitled_def ustr_def invalid_char_def underscore_def)

lemma replace_invalid_valid: "list_all (\<lambda>c. \<not> invalid_char c) (replace_invalid s)"
  by (induction s) (auto simp: replace_invalid_def invalid_char_def underscore_def)

lemma list_all_subset: "set t \<subseteq> set s \<Longrightarrow> list_all Q s \<Longrightarrow> list_all Q t"
  by (auto simp: list_all_iff)

lemma well_named_body:
  assumes "take 150 (strip_by (\<lambda>c. c = underscore) (collapse_underscores (replace_invalid t))) \<noteq> []"
  shows "well_named (take 150 (strip_by (\<lambda>c. c = underscore) (collapse_underscores (replace_invalid t))))"
proof -
  let ?c = "collapse_underscores (replace_invalid t)"
  let ?s = "strip_by (\<lambda>c. c = underscore) ?c"
  have sne: "?s \<noteq> []" using assms by auto
  have "set (take 150 ?s) \<subseteq> set (replace_invalid t)"
    by (meson set_take_subset set_strip_by set_collapse subset_trans)
  then have v: "list_all (\<lambda>c. \<not> invalid_char c) (take 150 ?s)"
    using replace_invalid_valid list_all_subset by blast
  have n: "no_run (take 150 ?s)"
    by (simp add: no_run_take no_run_strip_by no_run_collapse)
  have "hd (take 150 ?s) = hd ?s" by simp
  moreover have "hd ?s \<noteq> underscore" using strip_by_hd [OF sne] by simp
  ultimately have h: "hd (take 150 ?s) \<noteq> underscore" by simp
  show ?thesis unfolding well_named_def using assms v n h by simp
qed

lemma well_named_sanitize: "well_named (sanitize_filename x)"
  unfolding sanitize_filename_def Let_def
  using well_named_untitled well_named_body by simp

lemma replace_invalid_id: "list_all (\<lambda>c. \<not> invalid_char c) s \<Longrightarrow> replace_invalid s = s"
  by (induction s) (auto simp: replace_invalid_def)

lemma sanitize_fixed:
  assumes w: "well_named y"
    and h: "\<not> py_isspace (hd y)" and l: "\<not> py_isspace (last y)" and u: "last y \<noteq> underscore"
  shows "sanitize_filename y = y"
proof -
  from w have ne: "y \<noteq> []" and len: "length y \<le> 150"
    and v: "list_all (\<lambda>c. \<not> invalid_char c) y" and n: "no_run y" and hu: "hd y \<noteq> underscore"
    by (simp_all add: well_named_def)
  have 1: "py_strip y = y" unfolding py_strip_def using ne h l by (rule strip_by_id)
  have 2: "replace_invalid y = y" using v by (rule replace_invalid_id)
  have 3: "collapse_underscores y = y" using n by (rule no_run_collapse_id)
  have 4: "strip_by (\<lambda>c. c = underscore) y = y" using ne hu u by (intro strip_by_id) simp_all
  show ?thesis unfolding sanitize_filename_def Let_def using 1 2 3 4 ne len by simp
qed

section \<open>Facts about paths\<close>

lemma all_sep_replicate: "(\<forall>c \<in> set xs. c = sep) \<Longrightarrow> xs = replicate (length xs) sep"
  by (induction xs) auto

lemma dirname_shape:
  "dirname p = [] \<or> dirname p = replicate (length (dirname p)) sep \<or>
   (dirname p \<noteq> [] \<and> last (dirname p) \<noteq> sep)"
proof -
  define head where "head = rev (dropWhile (\<lambda>c. c \<noteq> sep) (rev p))"
  have dn: "dirname p = (if head \<noteq> [] \<and> head \<noteq> replicate (length head) sep
      then rev (dropWhile (\<lambda>c. c = sep) (rev head)) else head)"
    unfolding dirname_def head_def Let_def ..
  show ?thesis
  proof (cases "head \<noteq> [] \<and> head \<noteq> replicate (length head) sep")
    case False
    have e: "dirname p = head" unfolding dn using False by (rule if_not_P)
    show ?thesis unfolding e using False by blast
  next
    case True
    define t where "t = dropWhile (\<lambda>c. c = sep) (rev head)"
    from True have d: "dirname p = rev t" using dn by (simp add: t_def)
    have tne: "t \<noteq> []"
    proof
      assume "t = []"
      then have "\<forall>c \<in> set (rev head). c = sep" unfolding t_def by (simp only: dropWhile_eq_Nil_conv)
      then have "\<forall>c \<in> set head. c = sep" by simp
      then have "head = replicate (length head) sep" by (rule all_sep_replicate)
      with True show False by simp
    qed
    then have "hd t \<noteq> sep" unfolding t_def by (rule hd_dropWhile)
    with tne have "rev t \<noteq> [] \<and> last (rev t) \<noteq> sep" by (simp add: last_rev)
    with d show ?thesis by simp
  qed
qed

lemma head_no_sep:
  assumes b: "sep \<notin> set b" and xs: "xs = [] \<or> last xs = sep"
  shows "rev (dropWhile (\<lambda>c. c \<noteq> sep) (rev (xs @ b))) = xs"
proof -
  have "dropWhile (\<lambda>c. c \<noteq> sep) (rev b @ rev xs) = dropWhile (\<lambda>c. c \<noteq> sep) (rev xs)"
    by (rule dropWhile_append2) (use b in auto)
  moreover have "dropWhile (\<lambda>c. c \<noteq> sep) (rev xs) = rev xs"
    using xs by (cases xs rule: rev_cases) auto
  ultimately show ?thesis by simp
qed

lemma tail_no_sep:
  assumes b: "sep \<notin> set b" and xs: "xs = [] \<or> last xs = sep"
  shows "basename (xs @ b) = b"
proof -
  have "takeWhile (\<lambda>c. c \<noteq> sep) (rev b @ rev xs) = rev b @ takeWhile (\<lambda>c. c \<noteq> sep) (rev xs)"
    by (rule takeWhile_append2) (use b in auto)
  moreover have "takeWhile (\<lambda>c. c \<noteq> sep) (rev xs) = []"
    using xs by (cases xs rule: rev_cases) auto
  ultimately show ?thesis by (simp add: basename_def)
qed

lemma dirname_append:
  assumes b: "sep \<notin> set b" and xs: "xs = [] \<or> last xs = sep"
  shows "dirname (xs @ b) =
    (if xs \<noteq> [] \<and> xs \<noteq> replicate (length xs) sep
     then rev (dropWhile (\<lambda>c. c = sep) (rev xs)) else xs)"
  by (simp only: dirname_def Let_def head_no_sep [OF b xs])

lemma join_in_directory:
  assumes b: "sep \<notin> set b"
    and d: "d = [] \<or> d = replicate (length d) sep \<or> (d \<noteq> [] \<and> last d \<noteq> sep)"
  shows "dirname (path_join d b) = d \<and> basename (path_join d b) = b"
proof -
  have nb: "\<not> py_startswith b [sep]"
    using b by (cases b) (auto simp: py_startswith_def)
  have ends: "py_endswith d [sep] \<longleftrightarrow> d \<noteq> [] \<and> last d = sep"
    by (cases d rule: rev_cases) (auto simp: py_endswith_def)
  consider (empty) "d = []" | (root) "d \<noteq> []" "d = replicate (length d) sep"
    | (dir) "d \<noteq> []" "last d \<noteq> sep"
    using d by blast
  then show ?thesis
  proof cases
    case empty
    then have j: "path_join d b = [] @ b" using nb by (simp add: path_join_def)
    show ?thesis unfolding j using dirname_append [OF b, of "[]"] tail_no_sep [OF b, of "[]"] empty
      by simp
  next
    case root
    then have l: "last d = sep" by (metis last_replicate length_0_conv)
    then have j: "path_join d b = d @ b" using nb ends root(1) by (simp add: path_join_def)
    show ?thesis unfolding j using dirname_append [OF b, of d] tail_no_sep [OF b, of d] l root
      by simp
  next
    case dir
    then have j: "path_join d b = (d @ [sep]) @ b" using nb ends by (simp add: path_join_def)
    have ns: "d @ [sep] \<noteq> replicate (length (d @ [sep])) sep"
    proof
      assume a: "d @ [sep] = replicate (length (d @ [sep])) sep"
      have "\<forall>c \<in> set (replicate n sep). c = sep" for n by simp
      then have "\<forall>c \<in> set (d @ [sep]). c = sep" using a by metis
      moreover have "last d \<in> set d" using dir(1) by (rule last_in_set)
      ultimately show False using dir(2) by simp
    qed
    have "hd (rev d) \<noteq> sep" using dir by (simp add: hd_rev)
    then have k: "dropWhile (\<lambda>c. c = sep) (rev d) = rev d" using dir by (cases "rev d") auto
    have "dirname ((d @ [sep]) @ b) = rev (dropWhile (\<lambda>c. c = sep) (rev (d @ [sep])))"
      using dirname_append [OF b, of "d @ [sep]"] ns by simp
    also have "\<dots> = d" using k by simp
    finally show ?thesis unfolding j using tail_no_sep [OF b, of "d @ [sep]"] by simp
  qed
qed

lemma sanitized_title_no_sep: "sep \<notin> set (sanitize_filename t @ ustr ''.pdf'')"
proof -
  have "list_all (\<lambda>c. \<not> invalid_char c) (sanitize_filename t)"
    using well_named_sanitize [of t] by (simp add: well_named_def)
  moreover have "invalid_char sep" by (simp add: invalid_char_def sep_def)
  ultimately have "sep \<notin> set (sanitize_filename t)" by (auto simp: list_all_iff)
  then show ?thesis by (simp add: ustr_def sep_def)
qed

lemma new_path_in_directory:
  "dirname (new_path_of p t) = dirname p \<and>
   basename (new_path_of p t) = sanitize_filename t @ ustr ''.pdf''"
  unfolding new_path_of_def
  using join_in_directory [OF sanitized_title_no_sep dirname_shape] .

section \<open>What extraction and generation leave untouched\<close>

lemma emit_simps [simp]:
  "fs (emit e w) = fs w" "trace (emit e w) = trace w @ [e]"
  "requests_made (emit e w) = requests_made w"
  by (simp_all add: emit_def)

lemma log_simps [simp]:
  "fs (log l m w) = fs w" "trace (log l m w) = trace w @ [Log l m]"
  "requests_made (log l m w) = requests_made w"
  by (simp_all add: log_def)

lemma quiet_refl: "quiet w w"
  by (simp add: quiet_def)

lemma quiet_trans: "quiet w w1 \<Longrightarrow> quiet w1 w2 \<Longrightarrow> quiet w w2"
  unfolding quiet_def by (metis prefix_order.trans)

lemma quiet_emit: "\<not> is_rename e \<Longrightarrow> quiet w (emit e w)"
  by (simp add: quiet_def)

lemma quiet_log: "\<not> is_rename (Log l m) \<Longrightarrow> quiet w (log l m w)"
  by (simp add: quiet_def)

lemma quiet_requests: "quiet w (w\<lparr>requests_made := n\<rparr>)"
  by (simp add: quiet_def)

lemma ocr_handlers_quiet: "quiet w (snd (ocr_handlers e w))"
  by (simp add: ocr_handlers_def lookup_ExitCodeError_def quiet_log quiet_refl)

lemma ocr_handlers_requests: "requests_made (snd (ocr_handlers e w)) = requests_made w"
  by (simp add: ocr_handlers_def lookup_ExitCodeError_def)

lemma ocr_fallback_starts:
  "prefix (trace w @ [Log INFO FallbackToOcr, RunOcr p]) (trace (snd (ocr_fallback env p w)))"
proof -
  let ?w2 = "emit (RunOcr p) (log INFO FallbackToOcr w)"
  have t2: "trace ?w2 = trace w @ [Log INFO FallbackToOcr, RunOcr p]" by simp
  have h: "prefix (trace ?w2) (trace (snd (ocr_handlers e ?w2)))" for e
    using ocr_handlers_quiet [of ?w2 e] by (simp add: quiet_def)
  have h3: "prefix (trace ?w2) (trace (snd (ocr_handlers e (emit (RunPdftotextOcr p) ?w2))))" for e
  proof -
    have "prefix (trace ?w2) (trace (emit (RunPdftotextOcr p) ?w2))"
      unfolding emit_simps(2) [of "RunPdftotextOcr p"] by (rule prefixI) (rule refl)
    moreover have "prefix (trace (emit (RunPdftotextOcr p) ?w2))
        (trace (snd (ocr_handlers e (emit (RunPdftotextOcr p) ?w2))))"
      using ocr_handlers_quiet unfolding quiet_def by blast
    ultimately show ?thesis by (rule prefix_order.trans)
  qed
  have h4: "prefix (trace ?w2) (trace (log l x (emit (RunPdftotextOcr p) ?w2)))" for l x
    by (simp add: prefix_def)
  have h5: "prefix (trace ?w2) (trace (emit (RunPdftotextOcr p) ?w2))"
    by (simp add: prefix_def)
  show ?thesis
    unfolding t2 [symmetric] ocr_fallback_def Let_def
    using h h3 h4 h5 by (simp split: option.splits proc.splits del: emit_simps log_simps)
qed

lemma ocr_fallback_quiet: "quiet w (snd (ocr_fallback env p w))"
proof -
  let ?w2 = "emit (RunOcr p) (log INFO FallbackToOcr w)"
  let ?w3 = "emit (RunPdftotextOcr p) ?w2"
  have q2: "quiet w ?w2" by (simp add: quiet_def)
  have q3: "quiet w ?w3" by (simp add: quiet_def)
  have a: "quiet w (snd (ocr_handlers e ?w2))" for e
    using q2 ocr_handlers_quiet by (rule quiet_trans)
  have b: "quiet w (snd (ocr_handlers e ?w3))" for e
    using q3 ocr_handlers_quiet by (rule quiet_trans)
  have c: "quiet w (log ERROR (PdftotextFailedAfterOcr err) ?w3)" for err
    by (simp add: quiet_def)
  show ?thesis
    unfolding ocr_fallback_def Let_def
    using a b c q3 by (simp split: option.splits proc.splits del: emit_simps log_simps)
qed

lemma ocr_fallback_requests: "requests_made (snd (ocr_fallback env p w)) = requests_made w"
  by (simp add: ocr_fallback_def Let_def ocr_handlers_requests split: option.splits proc.splits)

lemma extract_quiet: "quiet w (snd (extract_text_from_first_page env p w))"
proof -
  let ?w1 = "emit (RunPdftotext p) w"
  have q1: "quiet w ?w1" by (simp add: quiet_def)
  have a: "quiet w (snd (ocr_fallback env p ?w1))"
    using q1 ocr_fallback_quiet by (rule quiet_trans)
  have q2: "quiet w (log WARNING (PdftotextTimedOut p) ?w1)" by (simp add: quiet_def)
  have b: "quiet w (snd (ocr_fallback env p (log WARNING (PdftotextTimedOut p) ?w1)))"
    using q2 ocr_fallback_quiet by (rule quiet_trans)
  have c: "quiet w (log ERROR PdftotextNotFound ?w1)" by (simp add: quiet_def)
  show ?thesis
    unfolding extract_text_from_first_page_def Let_def
    using a b c q1 by (simp split: proc.splits del: emit_simps log_simps)
qed

lemma extract_requests:
  "requests_made (snd (extract_text_from_first_page env p w)) = requests_made w"
  by (simp add: extract_text_from_first_page_def Let_def ocr_fallback_requests split: proc.splits)

lemma body_quiet: "quiet w (snd (generate_title_body env t k m w))"
  by (simp add: generate_title_body_def Let_def quiet_def split: post_outcome.splits sum.splits)

lemma body_requests:
  "requests_made (snd (generate_title_body env t k m w)) = Suc (requests_made w)"
  by (simp add: generate_title_body_def Let_def split: post_outcome.splits sum.splits)

lemma retrying_returns:
  "generate_title_body env t k m w = (Inr v, w1) \<Longrightarrow> retrying env t k m n w = (Inr v, w1)"
  by (subst retrying.simps) simp

lemma retrying_other:
  "generate_title_body env t k m w = (Inl e, w1) \<Longrightarrow> e \<noteq> RequestException \<Longrightarrow>
   retrying env t k m n w = (Inl e, w1)"
  by (subst retrying.simps) simp

lemma retrying_again:
  "generate_title_body env t k m w = (Inl RequestException, w1) \<Longrightarrow> n < 3 \<Longrightarrow>
   retrying env t k m n w =
   retrying env t k m (Suc n) (emit (Sleep (wait_exponential n)) w1)"
  by (subst retrying.simps) simp

lemma retrying_gives_up:
  "generate_title_body env t k m w = (Inl RequestException, w1) \<Longrightarrow> \<not> n < 3 \<Longrightarrow>
   retrying env t k m n w = (Inl RetryError, w1)"
  by (subst retrying.simps) simp

lemma retrying_quiet: "quiet w (snd (retrying env t k m n w))"
proof (induction env t k m n w rule: retrying.induct)
  case (1 env t k m n w)
  obtain r w1 where b: "generate_title_body env t k m w = (r, w1)" by fastforce
  have q1: "quiet w w1" using body_quiet [of w env t k m] b by simp
  show ?case
  proof (cases "r = Inl RequestException")
    case False
    then have "retrying env t k m n w = (r, w1)"
      using b retrying_returns retrying_other by (cases r) auto
    then show ?thesis using q1 by simp
  next
    case True
    show ?thesis
    proof (cases "n < 3")
      case False
      then show ?thesis using retrying_gives_up b True q1 by simp
    next
      case lt: True
      let ?w2 = "emit (Sleep (wait_exponential n)) w1"
      have "quiet ?w2 (snd (retrying env t k m (Suc n) ?w2))"
        using 1 [OF b [symmetric] refl] True lt by simp
      moreover have "quiet w1 ?w2" by (simp add: quiet_emit)
      ultimately have "quiet w (snd (retrying env t k m (Suc n) ?w2))"
        using q1 quiet_trans by blast
      then show ?thesis using retrying_again b True lt by simp
    qed
  qed
qed

lemma generate_quiet: "quiet w (snd (generate_title_with_gemini env t k m w))"
  unfolding generate_title_with_gemini_def by (rule retrying_quiet)

section \<open>Reading the response\<close>

lemma try_bind_Inr: "try_bind r f = Inr v \<longleftrightarrow> (\<exists>x. r = Inr x \<and> f x = Inr v)"
  by (cases r) (simp_all add: try_bind_def)

lemma try_bind_simps [simp]: "try_bind (Inr x) f = f x" "try_bind (Inl e) f = Inl e"
  by (simp_all add: try_bind_def)

lemma getitem_key_Inr: "py_getitem_key j k = Inr v \<longleftrightarrow> obj_field j k = Some v"
  by (cases j) (auto split: option.splits)

lemma getitem_0_Inr:
  "py_getitem_0 j = Inr v \<Longrightarrow> arr_first j = Some v \<or> (\<exists>c. v = JString [c])"
  by (cases j rule: py_getitem_0.cases) auto

lemma strip_method_Inr: "py_strip_method j = Inr s \<longleftrightarrow> (\<exists>t. str_value j = Some t \<and> s = py_strip t)"
  by (cases j) auto

lemma obj_field_JString [simp]: "obj_field (JString s) k = None"
  by simp

lemma first_then_field:
  assumes "py_getitem_0 j = Inr x" and "py_getitem_key x k = Inr y"
  shows "arr_first j = Some x \<and> obj_field x k = Some y"
proof -
  from assms(2) have f: "obj_field x k = Some y" by (simp add: getitem_key_Inr)
  from getitem_0_Inr [OF assms(1)] f show ?thesis by auto
qed

lemma response_title_Inr:
  assumes "response_title (Inr body) = Inr v" and "v \<noteq> []"
  shows "\<exists>t. expected_text body = Some t \<and> v = py_strip t"
proof -
  from assms obtain present where p: "py_in (ustr ''candidates'') body = Inr present"
    and r1: "(if present then
         try_bind (py_getitem_key body (ustr ''candidates'')) (\<lambda>candidates.
         try_bind (py_len candidates) (\<lambda>n.
           if 0 < n then
             try_bind (py_getitem_0 candidates) (\<lambda>candidate.
             try_bind (py_getitem_key candidate (ustr ''content'')) (\<lambda>content.
             try_bind (py_getitem_key content (ustr ''parts'')) (\<lambda>parts.
             try_bind (py_getitem_0 parts) (\<lambda>part.
             try_bind (py_getitem_key part (ustr ''text'')) (\<lambda>text_content.
             py_strip_method text_content)))))
           else Inr []))
       else Inr []) = Inr v"
    unfolding response_title_def by (auto simp: try_bind_Inr)
  from r1 assms(2) have present by (auto split: if_splits)
  with r1 obtain candidates n where c: "py_getitem_key body (ustr ''candidates'') = Inr candidates"
    and n: "py_len candidates = Inr n"
    and r2: "(if 0 < n then
             try_bind (py_getitem_0 candidates) (\<lambda>candidate.
             try_bind (py_getitem_key candidate (ustr ''content'')) (\<lambda>content.
             try_bind (py_getitem_key content (ustr ''parts'')) (\<lambda>parts.
             try_bind (py_getitem_0 parts) (\<lambda>part.
             try_bind (py_getitem_key part (ustr ''text'')) (\<lambda>text_content.
             py_strip_method text_content)))))
           else Inr []) = Inr v"
    by (auto simp: try_bind_Inr)
  from r2 assms(2) have "0 < n" by (auto split: if_splits)
  with r2 obtain candidate content parts part text_content where
    1: "py_getitem_0 candidates = Inr candidate" and
    2: "py_getitem_key candidate (ustr ''content'') = Inr content" and
    3: "py_getitem_key content (ustr ''parts'') = Inr parts" and
    4: "py_getitem_0 parts = Inr part" and
    5: "py_getitem_key part (ustr ''text'') = Inr text_content" and
    6: "py_strip_method text_content = Inr v"
    by (auto simp: try_bind_Inr)
  from 6 obtain t where t: "str_value text_content = Some t" "v = py_strip t"
    by (auto simp: strip_method_Inr)
  have "expected_text body = Some t"
    unfolding expected_text_def
    using c first_then_field [OF 1 2] 3 first_then_field [OF 4 5] t(1)
    by (simp add: getitem_key_Inr)
  with t(2) show ?thesis by blast
qed

lemma response_title_expected:
  assumes "expected_text body = Some t"
  shows "response_title (Inr body) = Inr (py_strip t)"
proof -
  from assms obtain candidates candidate content parts part text_content where
    c: "obj_field body (ustr ''candidates'') = Some candidates" and
    1: "arr_first candidates = Some candidate" and
    2: "obj_field candidate (ustr ''content'') = Some content" and
    3: "obj_field content (ustr ''parts'') = Some parts" and
    4: "arr_first parts = Some part" and
    5: "obj_field part (ustr ''text'') = Some text_content" and
    6: "str_value text_content = Some t"
    unfolding expected_text_def by (auto simp: bind_eq_Some_conv)
  from c have p: "py_in (ustr ''candidates'') body = Inr True"
    by (cases body) (auto dest: map_of_SomeD intro: rev_image_eqI)
  from 1 obtain rest where cs: "candidates = JArray (candidate # rest)"
    by (cases candidates rule: arr_first.cases) auto
  from 4 obtain rest' where ps: "parts = JArray (part # rest')"
    by (cases parts rule: arr_first.cases) auto
  from 6 have tc: "text_content = JString t" by (cases text_content) auto
  have g: "py_getitem_key body (ustr ''candidates'') = Inr candidates"
    "py_getitem_key candidate (ustr ''content'') = Inr content"
    "py_getitem_key content (ustr ''parts'') = Inr parts"
    "py_getitem_key part (ustr ''text'') = Inr text_content"
    using c 2 3 5 by (simp_all add: getitem_key_Inr)
  have h: "py_len candidates = Inr (Suc (length rest))" "py_getitem_0 candidates = Inr candidate"
    "py_getitem_0 parts = Inr part" "py_strip_method text_content = Inr (py_strip t)"
    by (simp_all add: cs ps tc)
  show ?thesis
    unfolding response_title_def by (simp add: p g h)
qed

lemma response_title_malformed:
  assumes "expected_text body = None"
  shows "response_title (Inr body) = Inr [] \<or> (\<exists>e. response_title (Inr body) = Inl e)"
proof (cases "response_title (Inr body)")
  case (Inr v)
  then show ?thesis using response_title_Inr [of body v] assms by (cases "v = []") auto
qed simp

lemma response_title_raises: "response_title (Inl e) = Inl e"
  by (simp add: response_title_def)

lemma body_raises:
  assumes "requests_post env (requests_made w) (request_url m k) (prompt @ [10] @ t) = PostRaises e"
  shows "generate_title_body env t k m w =
    (Inl e, emit (Post (request_url m k) (prompt @ [10] @ t)) (w\<lparr>requests_made := Suc (requests_made w)\<rparr>))"
  using assms by (simp add: generate_title_body_def Let_def)

lemma body_status:
  assumes "requests_post env (requests_made w) (request_url m k) (prompt @ [10] @ t) =
      Response sc rtext js"
    and "sc \<noteq> 200"
  shows "generate_title_body env t k m w =
    (Inr [], log ERROR (ApiResponse rtext) (log ERROR (ApiRequestFailed sc)
       (emit (Post (request_url m k) (prompt @ [10] @ t)) (w\<lparr>requests_made := Suc (requests_made w)\<rparr>))))"
  using assms by (simp add: generate_title_body_def Let_def)

lemma body_malformed:
  assumes "requests_post env (requests_made w) (request_url m k) (prompt @ [10] @ t) =
      Response 200 rtext js"
    and "js = Inl e \<or> (js = Inr body \<and> expected_text body = None)"
  shows "fst (generate_title_body env t k m w) = Inr []"
proof -
  have "response_title js = Inr [] \<or> (\<exists>e'. response_title js = Inl e')"
    using assms(2) response_title_malformed [of body] response_title_raises [of e] by auto
  then show ?thesis
    using assms(1) by (auto simp: generate_title_body_def Let_def)
qed

lemma body_never_raises:
  assumes "requests_post env (requests_made w) (request_url m k) (prompt @ [10] @ t) =
      Response sc rtext js"
  shows "\<exists>v. fst (generate_title_body env t k m w) = Inr v"
  using assms by (simp add: generate_title_body_def Let_def split: sum.splits)

lemma retrying_once:
  assumes "fst (generate_title_body env t k m w) = Inr v"
  shows "retrying env t k m n w = generate_title_body env t k m w"
proof -
  obtain w1 where "generate_title_body env t k m w = (Inr v, w1)"
    using assms by (cases "generate_title_body env t k m w") auto
  then show ?thesis using retrying_returns by simp
qed

lemma body_ok:
  assumes "requests_post env (requests_made w) (request_url m k) (prompt @ [10] @ t) =
      Response 200 rtext (Inr body)"
    and "expected_text body = Some title"
  shows "generate_title_body env t k m w =
    (Inr (py_strip title),
     emit (Post (request_url m k) (prompt @ [10] @ t)) (w\<lparr>requests_made := Suc (requests_made w)\<rparr>))"
  using assms response_title_expected [OF assms(2)]
  by (simp add: generate_title_body_def Let_def)

lemma generate_ok:
  assumes "requests_post env (requests_made w) (request_url m k) (prompt @ [10] @ t) =
      Response 200 rtext (Inr body)"
    and "expected_text body = Some title"
  shows "generate_title_with_gemini env t k m w =
    (Inr (py_strip title),
     emit (Post (request_url m k) (prompt @ [10] @ t)) (w\<lparr>requests_made := Suc (requests_made w)\<rparr>))"
  unfolding generate_title_with_gemini_def
  using body_ok [OF assms] by (rule retrying_returns)

lemma wait_exponential_bounds: "4 \<le> wait_exponential n \<and> wait_exponential n \<le> 10"
  by (simp add: wait_exponential_def)

section \<open>The stages of rename_pdf\<close>

lemma rename_pdf_staged:
  assumes "extract_text_from_first_page env p w = (Inr pdf_text, w1)" and "pdf_text \<noteq> []"
    and "generate_title_with_gemini env pdf_text k m w1 = (Inr title, w2)" and "title \<noteq> []"
  shows "rename_pdf env p k dry m w =
    (if dry then (Inr (), log INFO (DryRunWouldRename (basename p) title) w2)
     else if path_exists w2 (new_path_of p title)
     then (Inr (), log WARNING (AlreadyExistsSkipping (sanitize_filename title @ ustr ''.pdf'')) w2)
     else (case os_rename env p (new_path_of p title) w2 of
             Inl e \<Rightarrow> (Inl e, w2)
           | Inr w3 \<Rightarrow> (Inr (), log INFO (RenamedTo (new_path_of p title)) w3)))"
  unfolding new_path_of_def using assms by (simp add: rename_pdf_def Let_def)

lemma stages_quiet:
  assumes "extract_text_from_first_page env p w = (Inr pdf_text, w1)"
    and "generate_title_with_gemini env pdf_text k m w1 = (Inr title, w2)"
  shows "quiet w w2"
proof -
  have "quiet w w1" using extract_quiet [of w env p] assms(1) by simp
  moreover have "quiet w1 w2" using generate_quiet [of w1 env pdf_text k m] assms(2) by simp
  ultimately show ?thesis by (rule quiet_trans)
qed

lemma rename_pdf_extends:
  "prefix (trace (snd (extract_text_from_first_page env p w)))
     (trace (snd (rename_pdf env p k dry m w)))"
proof -
  obtain r w1 where e: "extract_text_from_first_page env p w = (r, w1)" by fastforce
  show ?thesis
  proof (cases r)
    case (Inl x)
    then show ?thesis using e by (simp add: rename_pdf_def)
  next
    case (Inr pdf_text)
    obtain r2 w2 where g: "generate_title_with_gemini env pdf_text k m w1 = (r2, w2)" by fastforce
    have p12: "prefix (trace w1) (trace w2)"
      using generate_quiet [of w1 env pdf_text k m] g by (simp add: quiet_def)
    have ext: "prefix (trace w1) (trace w2 @ evs)" for evs
      using p12 by (rule prefix_prefix)
    show ?thesis
    proof (cases r2)
      case (Inl x)
      then show ?thesis using e Inr g p12 by (simp add: rename_pdf_def)
    next
      case title: (Inr title)
      show ?thesis using e Inr g title p12 ext
        by (auto simp: rename_pdf_def Let_def os_rename_def split: option.splits)
    qed
  qed
qed

lemma rename_skips:
  assumes "extract_text_from_first_page env p w = (Inr pdf_text, w1)" and "pdf_text \<noteq> []"
    and "generate_title_with_gemini env pdf_text k m w1 = (Inr title, w2)" and "title \<noteq> []"
    and "new_path_of p title \<in> dom (fs w)"
  shows "rename_pdf env p k False m w =
      (Inr (), log WARNING (AlreadyExistsSkipping (sanitize_filename title @ ustr ''.pdf'')) w2)"
    and "fs (snd (rename_pdf env p k False m w)) = fs w"
    and "filter is_rename (trace (snd (rename_pdf env p k False m w))) = filter is_rename (trace w)"
proof -
  have q: "quiet w w2" using assms(1,3) by (rule stages_quiet)
  then have f: "fs w2 = fs w" and r: "filter is_rename (trace w2) = filter is_rename (trace w)"
    by (simp_all add: quiet_def)
  show a: "rename_pdf env p k False m w =
      (Inr (), log WARNING (AlreadyExistsSkipping (sanitize_filename title @ ustr ''.pdf'')) w2)"
    using rename_pdf_staged [OF assms(1-4), of False] assms(5) f by (simp add: path_exists_def)
  show "fs (snd (rename_pdf env p k False m w)) = fs w" using a f by simp
  show "filter is_rename (trace (snd (rename_pdf env p k False m w))) = filter is_rename (trace w)"
    using a r by simp
qed

lemma rename_moves:
  assumes "extract_text_from_first_page env p w = (Inr pdf_text, w1)" and "pdf_text \<noteq> []"
    and "generate_title_with_gemini env pdf_text k m w1 = (Inr title, w2)" and "title \<noteq> []"
    and "new_path_of p title \<notin> dom (fs w)" and "rename_error env p (new_path_of p title) = None"
    and "fs w p = Some contents"
  shows "fst (rename_pdf env p k False m w) = Inr ()"
    and "fs (snd (rename_pdf env p k False m w)) =
      ((fs w)(p := None))(new_path_of p title \<mapsto> contents)"
proof -
  have q: "quiet w w2" using assms(1,3) by (rule stages_quiet)
  then have f: "fs w2 = fs w" by (simp add: quiet_def)
  note s = rename_pdf_staged [OF assms(1-4), of False]
  show "fst (rename_pdf env p k False m w) = Inr ()"
    using s f assms(5-7) by (simp add: path_exists_def os_rename_def)
  show "fs (snd (rename_pdf env p k False m w)) =
      ((fs w)(p := None))(new_path_of p title \<mapsto> contents)"
    using s f assms(5-7) by (simp add: path_exists_def os_rename_def)
qed

lemma rename_refused:
  assumes "extract_text_from_first_page env p w = (Inr pdf_text, w1)" and "pdf_text \<noteq> []"
    and "generate_title_with_gemini env pdf_text k m w1 = (Inr title, w2)" and "title \<noteq> []"
    and "new_path_of p title \<notin> dom (fs w)" and "rename_error env p (new_path_of p title) = Some e"
  shows "rename_pdf env p k False m w = (Inl e, w2)"
    and "fs (snd (rename_pdf env p k False m w)) = fs w"
    and "filter is_rename (trace (snd (rename_pdf env p k False m w))) = filter is_rename (trace w)"
proof -
  have q: "quiet w w2" using assms(1,3) by (rule stages_quiet)
  then have f: "fs w2 = fs w" and r: "filter is_rename (trace w2) = filter is_rename (trace w)"
    by (simp_all add: quiet_def)
  show a: "rename_pdf env p k False m w = (Inl e, w2)"
    using rename_pdf_staged [OF assms(1-4), of False] f assms(5,6)
    by (simp add: path_exists_def os_rename_def)
  show "fs (snd (rename_pdf env p k False m w)) = fs w" using a f by simp
  show "filter is_rename (trace (snd (rename_pdf env p k False m w))) = filter is_rename (trace w)"
    using a r by simp
qed

section \<open>The example runs evaluated\<close>

lemma py_strip_Nil: "py_strip [] = []"
  by (simp add: py_strip_def strip_by_def)

lemma page_text_strip: "py_strip page_text = page_text \<and> 50 \<le> length page_text \<and> page_text \<noteq> []"
  by (simp add: page_text_def ustr_def py_strip_def strip_by_def py_isspace_def)

lemma example_extract:
  "extract_text_from_first_page (example_env t) p w = (Inr page_text, emit (RunPdftotext p) w)"
  by (simp add: extract_text_from_first_page_def example_env_def page_text_strip)

lemma expected_gemini_reply: "expected_text (gemini_reply t) = Some t"
  by (simp add: expected_text_def gemini_reply_def ustr_def)

lemma example_generate:
  "generate_title_with_gemini (example_env t) x k m w =
    (Inr (py_strip t),
     emit (Post (request_url m k) (prompt @ [10] @ x)) (w\<lparr>requests_made := Suc (requests_made w)\<rparr>))"
  by (rule generate_ok [where rtext = "[]" and body = "gemini_reply t"])
     (simp_all add: example_env_def expected_gemini_reply)

lemma sentinel_strip: "py_strip sentinel = sentinel \<and> sentinel \<noteq> []"
  by (simp add: sentinel_def ustr_def py_strip_def strip_by_def py_isspace_def)

lemma sentinel_sanitized: "sanitize_filename sentinel = sentinel"
  by (simp add: sentinel_def sanitize_eval)

lemma example_paths:
  "new_path_of (ustr ''/d/a.pdf'') (ustr ''Report'') = ustr ''/d/Report.pdf''"
  "new_path_of (ustr ''/d/Report.pdf'') (ustr ''Report'') = ustr ''/d/Report.pdf''"
  "new_path_of (ustr ''/d/a.pdf'') (ustr ''a:b'') = ustr ''/d/a_b.pdf''"
  "new_path_of (ustr ''/d/a.pdf'') sentinel = ustr ''/d/Insufficient-Content.pdf''"
  "basename (ustr ''/d/a.pdf'') = ustr ''a.pdf''"
  by (simp_all add: new_path_of_def path_join_def dirname_def basename_def sep_def sentinel_def
      py_startswith_def py_endswith_def sanitize_eval)

lemma example_titles:
  "py_strip (ustr ''Report'') = ustr ''Report''" "ustr ''Report'' \<noteq> []"
  "py_strip (ustr ''a:b'') = ustr ''a:b''" "ustr ''a:b'' \<noteq> []"
  by (simp_all add: ustr_def py_strip_def strip_by_def py_isspace_def)

lemma example_files:
  "ustr ''/d/Report.pdf'' \<in> dom (fs example_world)"
  "ustr ''/d/a.pdf'' \<in> dom (fs example_world)"
  "fs example_world (ustr ''/d/a.pdf'') = Some [37, 80, 68, 70]"
  "ustr ''/d/a_b.pdf'' \<notin> dom (fs example_world)"
  "ustr ''/d/Insufficient-Content.pdf'' \<notin> dom (fs example_world)"
  by (simp_all add: example_world_def ustr_def)

lemma example_rename_error: "rename_error (example_env t) src dst = None"
  by (simp add: example_env_def)

lemma readonly_rename_error: "rename_error (readonly_env t) src dst = Some OSError"
  by (simp add: readonly_env_def)

lemma readonly_extract:
  "extract_text_from_first_page (readonly_env t) p w = (Inr page_text, emit (RunPdftotext p) w)"
  by (simp add: extract_text_from_first_page_def readonly_env_def example_env_def page_text_strip)

lemma readonly_generate:
  "generate_title_with_gemini (readonly_env t) x k m w =
    (Inr (py_strip t),
     emit (Post (request_url m k) (prompt @ [10] @ x)) (w\<lparr>requests_made := Suc (requests_made w)\<rparr>))"
  by (rule generate_ok [where rtext = "[]" and body = "gemini_reply t"])
     (simp_all add: readonly_env_def example_env_def expected_gemini_reply)

lemma occupied_files:
  "ustr ''/d/Insufficient-Content.pdf'' \<in> dom (fs occupied_world)"
  by (simp add: occupied_world_def)

section \<open>C1: the directory driver\<close>

text \<open>
  C1. rename_pdfs_in_directory is meant to process every file of the directory whose
  name ends in \<open>.pdf\<close>, one document's failure not stopping the others. The function
  as written has no loop over the directory: on every directory, whatever it holds,
  the first thing it evaluates is \<open>filename.lower()\<close> on the function imported from
  \<open>fileinput\<close>, which raises \<open>AttributeError\<close> outside the \<open>try\<close>; no document is
  processed and nothing is logged.
\<close>

theorem rename_pdfs_in_directory_raises:
  "rename_pdfs_in_directory env directory_path api_key dry_run model w = (Inl AttributeError, w)"
  by (simp add: rename_pdfs_in_directory_def filename_def)

section \<open>C2: the sentinel\<close>

text \<open>
  C2 (as amended). When the service answers with status 200 and the text
  \<open>Insufficient-Content\<close>, generate_title_with_gemini returns that text as the title; it
  is not turned into an empty title. rename_pdf then treats it like any other title: the
  destination is \<open>Insufficient-Content.pdf\<close> in the document's directory. If a file
  exists there the document is skipped and the files stay as they are. Otherwise
  \<open>os.rename\<close> is called with that destination: when the operating system accepts
  it the existing document is renamed to it, and when it refuses, its error leaves
  rename_pdf and the files stay as they are.
\<close>

theorem sentinel_not_normalised:
  assumes "extract_text_from_first_page env p w = (Inr pdf_text, w1)" and "pdf_text \<noteq> []"
    and "requests_post env (requests_made w1) (request_url m k) (prompt @ [10] @ pdf_text) =
      Response 200 rtext (Inr body)"
    and "expected_text body = Some sentinel"
  shows "fst (generate_title_with_gemini env pdf_text k m w1) = Inr sentinel \<and>
    new_path_of p sentinel = path_join (dirname p) (ustr ''Insufficient-Content.pdf'') \<and>
    (new_path_of p sentinel \<in> dom (fs w) \<longrightarrow>
       fst (rename_pdf env p k False m w) = Inr () \<and>
       fs (snd (rename_pdf env p k False m w)) = fs w) \<and>
    (new_path_of p sentinel \<notin> dom (fs w) \<and> rename_error env p (new_path_of p sentinel) = None \<and>
       fs w p = Some contents \<longrightarrow>
       fst (rename_pdf env p k False m w) = Inr () \<and>
       fs (snd (rename_pdf env p k False m w)) =
         ((fs w)(p := None))(new_path_of p sentinel \<mapsto> contents)) \<and>
    (new_path_of p sentinel \<notin> dom (fs w) \<and>
       rename_error env p (new_path_of p sentinel) = Some e \<longrightarrow>
       fst (rename_pdf env p k False m w) = Inl e \<and>
       fs (snd (rename_pdf env p k False m w)) = fs w)"
proof -
  have g: "generate_title_with_gemini env pdf_text k m w1 =
      (Inr sentinel, emit (Post (request_url m k) (prompt @ [10] @ pdf_text))
         (w1\<lparr>requests_made := Suc (requests_made w1)\<rparr>))"
    using generate_ok [OF assms(3,4)] sentinel_strip by simp
  have ne: "sentinel \<noteq> []" using sentinel_strip by simp
  have n: "new_path_of p sentinel = path_join (dirname p) (ustr ''Insufficient-Content.pdf'')"
    by (simp add: new_path_of_def sentinel_sanitized) (simp add: sentinel_def ustr_def)
  have a: "new_path_of p sentinel \<in> dom (fs w) \<Longrightarrow>
      fst (rename_pdf env p k False m w) = Inr () \<and> fs (snd (rename_pdf env p k False m w)) = fs w"
    using rename_skips(1,2) [OF assms(1,2) g ne] by (metis fst_conv)
  have b: "new_path_of p sentinel \<notin> dom (fs w) \<and> rename_error env p (new_path_of p sentinel) = None \<and>
      fs w p = Some contents \<Longrightarrow>
      fst (rename_pdf env p k False m w) = Inr () \<and>
      fs (snd (rename_pdf env p k False m w)) =
        ((fs w)(p := None))(new_path_of p sentinel \<mapsto> contents)"
    using rename_moves [OF assms(1,2) g ne] by blast
  have c: "new_path_of p sentinel \<notin> dom (fs w) \<and>
      rename_error env p (new_path_of p sentinel) = Some e \<Longrightarrow>
      fst (rename_pdf env p k False m w) = Inl e \<and> fs (snd (rename_pdf env p k False m w)) = fs w"
    using rename_refused(1,2) [OF assms(1,2) g ne] by (metis fst_conv)
  have g': "fst (generate_title_with_gemini env pdf_text k m w1) = Inr sentinel"
    using g by simp
  show ?thesis using g' n a b c by blast
qed

theorem sentinel_not_normalised_witness:
  "fst (generate_title_with_gemini (example_env sentinel) page_text [] default_model
          (emit (RunPdftotext (ustr ''/d/a.pdf'')) example_world)) = Inr sentinel \<and>
   new_path_of (ustr ''/d/a.pdf'') sentinel \<notin> dom (fs example_world) \<and>
   rename_error (example_env sentinel) (ustr ''/d/a.pdf'')
     (new_path_of (ustr ''/d/a.pdf'') sentinel) = None \<and>
   fs example_world (ustr ''/d/a.pdf'') = Some [37, 80, 68, 70] \<and>
   fst (rename_pdf (example_env sentinel) (ustr ''/d/a.pdf'') [] False default_model
          example_world) = Inr () \<and>
   fs (snd (rename_pdf (example_env sentinel) (ustr ''/d/a.pdf'') [] False default_model
          example_world)) =
     ((fs example_world)(ustr ''/d/a.pdf'' := None))
       (ustr ''/d/Insufficient-Content.pdf'' \<mapsto> [37, 80, 68, 70]) \<and>
   new_path_of (ustr ''/d/a.pdf'') sentinel \<in> dom (fs occupied_world) \<and>
   fst (rename_pdf (example_env sentinel) (ustr ''/d/a.pdf'') [] False default_model
          occupied_world) = Inr () \<and>
   fs (snd (rename_pdf (example_env sentinel) (ustr ''/d/a.pdf'') [] False default_model
          occupied_world)) = fs occupied_world \<and>
   rename_error (readonly_env sentinel) (ustr ''/d/a.pdf'')
     (new_path_of (ustr ''/d/a.pdf'') sentinel) = Some OSError \<and>
   fst (rename_pdf (readonly_env sentinel) (ustr ''/d/a.pdf'') [] False default_model
          example_world) = Inl OSError \<and>
   fs (snd (rename_pdf (readonly_env sentinel) (ustr ''/d/a.pdf'') [] False default_model
          example_world)) = fs example_world"
proof -
  have r: "requests_post (example_env sentinel)
      (requests_made (emit (RunPdftotext (ustr ''/d/a.pdf'')) w))
      (request_url default_model []) (prompt @ [10] @ page_text) =
      Response 200 [] (Inr (gemini_reply sentinel))" for w
    by (simp add: example_env_def)
  have r': "requests_post (readonly_env sentinel)
      (requests_made (emit (RunPdftotext (ustr ''/d/a.pdf'')) w))
      (request_url default_model []) (prompt @ [10] @ page_text) =
      Response 200 [] (Inr (gemini_reply sentinel))" for w
    by (simp add: readonly_env_def example_env_def)
  have ne: "page_text \<noteq> []" using page_text_strip by simp
  show ?thesis
    using sentinel_not_normalised [OF example_extract [of sentinel "ustr ''/d/a.pdf''" example_world]
        ne r [of example_world] expected_gemini_reply, of "[37, 80, 68, 70]" OSError]
      sentinel_not_normalised [OF example_extract [of sentinel "ustr ''/d/a.pdf''" occupied_world]
        ne r [of occupied_world] expected_gemini_reply, of "[]" OSError]
      sentinel_not_normalised [OF readonly_extract [of sentinel "ustr ''/d/a.pdf''" example_world]
        ne r' [of example_world] expected_gemini_reply, of "[]" OSError]
      example_files occupied_files example_rename_error readonly_rename_error
    by (simp add: example_paths)
qed

text \<open>
  The claim of C2 as written fails: with the sentinel as the service's answer, the
  document \<open>/d/a.pdf\<close> ends up as \<open>/d/Insufficient-Content.pdf\<close> and is reported as
  renamed.
\<close>

theorem sentinel_becomes_file_name:
  "fst (generate_title_with_gemini (example_env sentinel) page_text [] default_model
          (emit (RunPdftotext (ustr ''/d/a.pdf'')) example_world)) = Inr sentinel \<and>
   sentinel \<noteq> [] \<and>
   fst (rename_pdf (example_env sentinel) (ustr ''/d/a.pdf'') [] False default_model
          example_world) = Inr () \<and>
   fs (snd (rename_pdf (example_env sentinel) (ustr ''/d/a.pdf'') [] False default_model
          example_world)) (ustr ''/d/Insufficient-Content.pdf'') = Some [37, 80, 68, 70] \<and>
   fs (snd (rename_pdf (example_env sentinel) (ustr ''/d/a.pdf'') [] False default_model
          example_world)) (ustr ''/d/a.pdf'') = None \<and>
   last (trace (snd (rename_pdf (example_env sentinel) (ustr ''/d/a.pdf'') [] False default_model
          example_world))) = Log INFO (RenamedTo (ustr ''/d/Insufficient-Content.pdf''))"
proof -
  have g: "generate_title_with_gemini (example_env sentinel) page_text [] default_model
      (emit (RunPdftotext (ustr ''/d/a.pdf'')) example_world) =
      (Inr sentinel, emit (Post (request_url default_model []) (prompt @ [10] @ page_text))
         ((emit (RunPdftotext (ustr ''/d/a.pdf'')) example_world)\<lparr>requests_made := 1\<rparr>))"
    using example_generate [of sentinel] sentinel_strip by (simp add: example_world_def)
  have ne: "page_text \<noteq> []" "sentinel \<noteq> []" using page_text_strip sentinel_strip by simp_all
  have d: "ustr ''/d/a.pdf'' \<noteq> ustr ''/d/Insufficient-Content.pdf''" by (simp add: ustr_def)
  show ?thesis
    using rename_pdf_staged [OF example_extract ne(1) g ne(2), of False] example_files g ne(2) d
    by (simp add: example_paths path_exists_def os_rename_def example_rename_error domIff)
qed

section \<open>C3: the retry bound\<close>

text \<open>
  C3 (as amended). When three requests in a row fail with a transport error,
  generate_title_with_gemini makes exactly three attempts, waits 4 time units after the
  first and after the second, and then raises \<open>RetryError\<close> to its caller; it does not
  return an empty title. Every wait of the policy lies between 4 and 10.
\<close>

theorem retry_bound:
  assumes "requests_post env (requests_made w) (request_url m k) (prompt @ [10] @ t) =
      PostRaises RequestException"
    and "requests_post env (Suc (requests_made w)) (request_url m k) (prompt @ [10] @ t) =
      PostRaises RequestException"
    and "requests_post env (Suc (Suc (requests_made w))) (request_url m k) (prompt @ [10] @ t) =
      PostRaises RequestException"
  shows "generate_title_with_gemini env t k m w =
    (Inl RetryError,
     w\<lparr>trace := trace w @
         [Post (request_url m k) (prompt @ [10] @ t), Sleep 4,
          Post (request_url m k) (prompt @ [10] @ t), Sleep 4,
          Post (request_url m k) (prompt @ [10] @ t)],
       requests_made := requests_made w + 3\<rparr>) \<and>
    4 \<le> wait_exponential n \<and> wait_exponential n \<le> 10"
proof -
  let ?post = "Post (request_url m k) (prompt @ [10] @ t)"
  let ?w1 = "emit ?post (w\<lparr>requests_made := Suc (requests_made w)\<rparr>)"
  let ?s1 = "emit (Sleep (wait_exponential 1)) ?w1"
  let ?w2 = "emit ?post (?s1\<lparr>requests_made := Suc (requests_made ?s1)\<rparr>)"
  let ?s2 = "emit (Sleep (wait_exponential (Suc 1))) ?w2"
  let ?w3 = "emit ?post (?s2\<lparr>requests_made := Suc (requests_made ?s2)\<rparr>)"
  have b1: "generate_title_body env t k m w = (Inl RequestException, ?w1)"
    using assms(1) by (rule body_raises)
  have "requests_post env (requests_made ?s1) (request_url m k) (prompt @ [10] @ t) =
      PostRaises RequestException" using assms(2) by simp
  then have b2: "generate_title_body env t k m ?s1 = (Inl RequestException, ?w2)"
    by (rule body_raises)
  have "requests_post env (requests_made ?s2) (request_url m k) (prompt @ [10] @ t) =
      PostRaises RequestException" using assms(3) by simp
  then have b3: "generate_title_body env t k m ?s2 = (Inl RequestException, ?w3)"
    by (rule body_raises)
  have "retrying env t k m 1 w = retrying env t k m (Suc 1) ?s1"
    using b1 by (rule retrying_again) simp
  also have "\<dots> = retrying env t k m (Suc (Suc 1)) ?s2"
    using b2 by (rule retrying_again) simp
  also have "\<dots> = (Inl RetryError, ?w3)"
    using b3 by (rule retrying_gives_up) simp
  finally have r: "generate_title_with_gemini env t k m w = (Inl RetryError, ?w3)"
    by (simp add: generate_title_with_gemini_def)
  have w: "wait_exponential (Suc 0) = 4" "wait_exponential (Suc (Suc 0)) = 4"
    by (simp_all add: wait_exponential_def)
  have "?w3 = w\<lparr>trace := trace w @ [?post, Sleep 4, ?post, Sleep 4, ?post],
       requests_made := requests_made w + 3\<rparr>"
    by (rule world.equality) (simp_all add: emit_def w)
  with r wait_exponential_bounds show ?thesis by simp
qed

theorem retry_bound_witness:
  "fst (generate_title_with_gemini offline_env page_text [] default_model example_world) =
     Inl RetryError \<and>
   trace (snd (generate_title_with_gemini offline_env page_text [] default_model example_world)) =
     [Post (request_url default_model []) (prompt @ [10] @ page_text), Sleep 4,
      Post (request_url default_model []) (prompt @ [10] @ page_text), Sleep 4,
      Post (request_url default_model []) (prompt @ [10] @ page_text)] \<and>
   requests_made (snd (generate_title_with_gemini offline_env page_text [] default_model
     example_world)) = 3"
proof -
  have r: "requests_post offline_env i u f = PostRaises RequestException" for i u f
    by (simp add: offline_env_def)
  show ?thesis
    using retry_bound [OF r r r, where w = example_world and m = default_model and k = "[]"
        and t = page_text and n = 1]
    by (simp add: example_world_def)
qed

text \<open>
  The claim of C3 as written fails: against a service that cannot be reached the
  generator does not return the empty title, it raises.
\<close>

theorem retry_exhausted_raises:
  "fst (generate_title_with_gemini offline_env page_text [] default_model example_world) =
     Inl RetryError \<and>
   fst (generate_title_with_gemini offline_env page_text [] default_model example_world) \<noteq> Inr []"
proof -
  have b: "generate_title_body offline_env page_text [] default_model w =
      (Inl RequestException,
       emit (Post (request_url default_model []) (prompt @ [10] @ page_text))
         (w\<lparr>requests_made := Suc (requests_made w)\<rparr>))" for w
    by (rule body_raises) (simp add: offline_env_def)
  have "fst (retrying offline_env page_text [] default_model 1 example_world) = Inl RetryError"
    using retrying_again [OF b, of 1] retrying_again [OF b, of "Suc 1"]
      retrying_gives_up [OF b, of "Suc (Suc 1)"]
    by simp
  then show ?thesis by (simp add: generate_title_with_gemini_def)
qed

section \<open>The sanitiser: C4 and C5\<close>

text \<open>
  C4 (as amended). For every input string, \<open>sanitize_filename\<close> returns a non-empty
  string of at most 150 code points that contains none of the forbidden characters.
  It is not idempotent in general; applying it again changes nothing whenever the
  result neither begins nor ends with whitespace and does not end with an underscore.
\<close>

theorem sanitize_filename_total:
  "sanitize_filename x \<noteq> [] \<and> length (sanitize_filename x) \<le> 150 \<and>
   list_all (\<lambda>c. \<not> invalid_char c) (sanitize_filename x) \<and>
   (\<not> py_isspace (hd (sanitize_filename x)) \<and> \<not> py_isspace (last (sanitize_filename x)) \<and>
      last (sanitize_filename x) \<noteq> underscore \<longrightarrow>
    sanitize_filename (sanitize_filename x) = sanitize_filename x)"
  using well_named_sanitize [of x] sanitize_fixed [of "sanitize_filename x"]
  by (simp add: well_named_def)

theorem sanitize_filename_total_witness:
  "sanitize_filename (ustr ''a:b'') = ustr ''a_b'' \<and>
   \<not> py_isspace (hd (sanitize_filename (ustr ''a:b''))) \<and>
   \<not> py_isspace (last (sanitize_filename (ustr ''a:b''))) \<and>
   last (sanitize_filename (ustr ''a:b'')) \<noteq> underscore \<and>
   list_all (\<lambda>c. \<not> invalid_char c) (sanitize_filename (ustr ''a:b'')) \<and>
   sanitize_filename (sanitize_filename (ustr ''a:b'')) = sanitize_filename (ustr ''a:b'')"
proof -
  have e: "sanitize_filename (ustr ''a:b'') = ustr ''a_b''"
    by (simp add: sanitize_eval)
  have p: "\<not> py_isspace (hd (ustr ''a_b'')) \<and> \<not> py_isspace (last (ustr ''a_b'')) \<and>
      last (ustr ''a_b'') \<noteq> underscore"
    by (simp add: ustr_def py_isspace_def underscore_def)
  show ?thesis using sanitize_filename_total [of "ustr ''a:b''"] e p by simp
qed

text \<open>
  The claim of C4 as written fails: on \<open>"a _"\<close> the underscore is stripped and the
  space before it becomes the last character, which a second application strips.
\<close>

theorem sanitize_filename_not_idempotent:
  "sanitize_filename (sanitize_filename (ustr ''a _'')) \<noteq> sanitize_filename (ustr ''a _'')"
  by (simp add: sanitize_eval)

text \<open>
  C5. The placeholder returned for an empty or all-whitespace title, and for a
  title of which nothing is left after replacement and stripping, is the string
  \<open>untitled.pdf\<close>, not \<open>untitled\<close>; with the extension that rename_pdf appends, the
  destination is \<open>untitled.pdf.pdf\<close>.
\<close>

theorem sanitize_filename_placeholder:
  "sanitize_filename [] = ustr ''untitled.pdf'' \<and>
   sanitize_filename (ustr ''   '') = ustr ''untitled.pdf'' \<and>
   sanitize_filename (ustr '':'') = ustr ''untitled.pdf'' \<and>
   sanitize_filename (ustr '':'') \<noteq> ustr ''untitled'' \<and>
   new_path_of (ustr ''/d/a.pdf'') (ustr '':'') = ustr ''/d/untitled.pdf.pdf''"
  by (simp add: sanitize_eval new_path_of_def path_join_def dirname_def sep_def
      py_startswith_def py_endswith_def)

section \<open>C6: dry run\<close>

text \<open>
  C6 (as amended). For every document with a non-empty extracted text and a non-empty
  generated title, rename_pdf with \<open>dry_run\<close> set stops after title generation: it
  does not sanitise, it logs the source's base name together with the raw generated
  title, and it leaves the files unchanged and performs no rename.
\<close>

theorem dry_run_reports_title:
  assumes "extract_text_from_first_page env p w = (Inr pdf_text, w1)" and "pdf_text \<noteq> []"
    and "generate_title_with_gemini env pdf_text k m w1 = (Inr title, w2)" and "title \<noteq> []"
  shows "rename_pdf env p k True m w =
      (Inr (), log INFO (DryRunWouldRename (basename p) title) w2) \<and>
    fs (snd (rename_pdf env p k True m w)) = fs w \<and>
    filter is_rename (trace (snd (rename_pdf env p k True m w))) = filter is_rename (trace w)"
proof -
  have q: "quiet w w2" using assms(1,3) by (rule stages_quiet)
  then have f: "fs w2 = fs w" and r: "filter is_rename (trace w2) = filter is_rename (trace w)"
    by (simp_all add: quiet_def)
  show ?thesis using rename_pdf_staged [OF assms, of True] f r by simp
qed

theorem dry_run_reports_title_witness:
  "rename_pdf (example_env (ustr ''a:b'')) (ustr ''/d/a.pdf'') [] True default_model example_world =
     (Inr (), log INFO (DryRunWouldRename (ustr ''a.pdf'') (ustr ''a:b''))
        (emit (Post (request_url default_model []) (prompt @ [10] @ page_text))
          ((emit (RunPdftotext (ustr ''/d/a.pdf'')) example_world)\<lparr>requests_made := 1\<rparr>))) \<and>
   fs (snd (rename_pdf (example_env (ustr ''a:b'')) (ustr ''/d/a.pdf'') [] True default_model
          example_world)) = fs example_world"
proof -
  have g: "generate_title_with_gemini (example_env (ustr ''a:b'')) page_text [] default_model
      (emit (RunPdftotext (ustr ''/d/a.pdf'')) example_world) =
      (Inr (ustr ''a:b''), emit (Post (request_url default_model []) (prompt @ [10] @ page_text))
         ((emit (RunPdftotext (ustr ''/d/a.pdf'')) example_world)\<lparr>requests_made := 1\<rparr>))"
    using example_generate [of "ustr ''a:b''"] by (simp add: example_titles example_world_def)
  have ne: "page_text \<noteq> []" using page_text_strip by simp
  show ?thesis
    using dry_run_reports_title [OF example_extract ne g example_titles(4)]
    by (simp add: example_paths)
qed

text \<open>
  The claim of C6 as written fails: for the generated title \<open>a:b\<close> the dry run's
  only report names \<open>a:b\<close>, while the sanitised name is \<open>a_b\<close> and the destination
  \<open>/d/a_b.pdf\<close>.
\<close>

theorem dry_run_reports_raw_title:
  "trace (snd (rename_pdf (example_env (ustr ''a:b'')) (ustr ''/d/a.pdf'') [] True default_model
      example_world)) =
     [RunPdftotext (ustr ''/d/a.pdf''),
      Post (request_url default_model []) (prompt @ [10] @ page_text),
      Log INFO (DryRunWouldRename (ustr ''a.pdf'') (ustr ''a:b''))] \<and>
   sanitize_filename (ustr ''a:b'') = ustr ''a_b'' \<and>
   new_path_of (ustr ''/d/a.pdf'') (ustr ''a:b'') = ustr ''/d/a_b.pdf'' \<and>
   ustr ''a:b'' \<noteq> ustr ''a_b'' \<and> ustr ''a:b'' \<noteq> ustr ''a_b.pdf'' \<and>
   ustr ''a:b'' \<noteq> ustr ''/d/a_b.pdf''"
proof -
  have g: "generate_title_with_gemini (example_env (ustr ''a:b'')) page_text [] default_model
      (emit (RunPdftotext (ustr ''/d/a.pdf'')) example_world) =
      (Inr (ustr ''a:b''), emit (Post (request_url default_model []) (prompt @ [10] @ page_text))
         ((emit (RunPdftotext (ustr ''/d/a.pdf'')) example_world)\<lparr>requests_made := 1\<rparr>))"
    using example_generate [of "ustr ''a:b''"] by (simp add: example_titles example_world_def)
  have ne: "page_text \<noteq> []" using page_text_strip by simp
  have t: "trace example_world = []" by (simp add: example_world_def)
  have s: "sanitize_filename (ustr ''a:b'') = ustr ''a_b''" by (simp add: sanitize_eval)
  have d: "ustr ''a:b'' \<noteq> ustr ''a_b'' \<and> ustr ''a:b'' \<noteq> ustr ''a_b.pdf'' \<and>
      ustr ''a:b'' \<noteq> ustr ''/d/a_b.pdf''" by (simp add: ustr_def)
  show ?thesis
    using rename_pdf_staged [OF example_extract ne g example_titles(4), of True] t s d
    by (simp add: example_paths)
qed

section \<open>C7: no clobbering\<close>

text \<open>
  C7. For every document that reaches the rename step (non-empty text, non-empty
  title, no dry run), the destination is the sanitised title followed by \<open>.pdf\<close>,
  in the directory of the document. If a file exists at the destination, rename_pdf
  takes the skip branch: it logs the warning, performs no rename, and leaves every
  file, the source and the existing destination included, as it was. If none exists,
  \<open>os.rename\<close> is called: when the operating system accepts it and the source
  exists, the source's contents move to the destination; when it refuses, its error
  leaves rename_pdf and every file stays as it was.
\<close>

theorem rename_no_clobber:
  assumes "extract_text_from_first_page env p w = (Inr pdf_text, w1)" and "pdf_text \<noteq> []"
    and "generate_title_with_gemini env pdf_text k m w1 = (Inr title, w2)" and "title \<noteq> []"
  shows "dirname (new_path_of p title) = dirname p \<and>
    basename (new_path_of p title) = sanitize_filename title @ ustr ''.pdf'' \<and>
    (new_path_of p title \<in> dom (fs w) \<longrightarrow>
       rename_pdf env p k False m w =
         (Inr (), log WARNING (AlreadyExistsSkipping (sanitize_filename title @ ustr ''.pdf'')) w2) \<and>
       fs (snd (rename_pdf env p k False m w)) = fs w \<and>
       filter is_rename (trace (snd (rename_pdf env p k False m w))) = filter is_rename (trace w)) \<and>
    (new_path_of p title \<notin> dom (fs w) \<and> rename_error env p (new_path_of p title) = None \<and>
       fs w p = Some contents \<longrightarrow>
       fst (rename_pdf env p k False m w) = Inr () \<and>
       fs (snd (rename_pdf env p k False m w)) =
         ((fs w)(p := None))(new_path_of p title \<mapsto> contents)) \<and>
    (new_path_of p title \<notin> dom (fs w) \<and> rename_error env p (new_path_of p title) = Some e \<longrightarrow>
       rename_pdf env p k False m w = (Inl e, w2) \<and>
       fs (snd (rename_pdf env p k False m w)) = fs w \<and>
       filter is_rename (trace (snd (rename_pdf env p k False m w))) = filter is_rename (trace w))"
  using new_path_in_directory [of p title] rename_skips [OF assms] rename_moves [OF assms]
    rename_refused [OF assms]
  by blast

theorem rename_no_clobber_witness:
  "new_path_of (ustr ''/d/a.pdf'') (ustr ''Report'') \<in> dom (fs example_world) \<and>
   fst (rename_pdf (example_env (ustr ''Report'')) (ustr ''/d/a.pdf'') [] False default_model
          example_world) = Inr () \<and>
   fs (snd (rename_pdf (example_env (ustr ''Report'')) (ustr ''/d/a.pdf'') [] False default_model
          example_world)) = fs example_world \<and>
   new_path_of (ustr ''/d/a.pdf'') (ustr ''a:b'') \<notin> dom (fs example_world) \<and>
   rename_error (example_env (ustr ''a:b'')) (ustr ''/d/a.pdf'')
     (new_path_of (ustr ''/d/a.pdf'') (ustr ''a:b'')) = None \<and>
   fs example_world (ustr ''/d/a.pdf'') = Some [37, 80, 68, 70] \<and>
   fs (snd (rename_pdf (example_env (ustr ''a:b'')) (ustr ''/d/a.pdf'') [] False default_model
          example_world)) (ustr ''/d/a_b.pdf'') = Some [37, 80, 68, 70] \<and>
   rename_error (readonly_env (ustr ''a:b'')) (ustr ''/d/a.pdf'')
     (new_path_of (ustr ''/d/a.pdf'') (ustr ''a:b'')) = Some OSError \<and>
   fst (rename_pdf (readonly_env (ustr ''a:b'')) (ustr ''/d/a.pdf'') [] False default_model
          example_world) = Inl OSError \<and>
   fs (snd (rename_pdf (readonly_env (ustr ''a:b'')) (ustr ''/d/a.pdf'') [] False default_model
          example_world)) = fs example_world"
proof -
  have g: "generate_title_with_gemini (example_env t) page_text [] default_model
      (emit (RunPdftotext (ustr ''/d/a.pdf'')) example_world) =
      (Inr (py_strip t), emit (Post (request_url default_model []) (prompt @ [10] @ page_text))
         ((emit (RunPdftotext (ustr ''/d/a.pdf'')) example_world)
           \<lparr>requests_made := Suc (requests_made (emit (RunPdftotext (ustr ''/d/a.pdf'')) example_world))\<rparr>))"
    for t by (rule example_generate)
  have g': "generate_title_with_gemini (readonly_env t) page_text [] default_model
      (emit (RunPdftotext (ustr ''/d/a.pdf'')) example_world) =
      (Inr (py_strip t), emit (Post (request_url default_model []) (prompt @ [10] @ page_text))
         ((emit (RunPdftotext (ustr ''/d/a.pdf'')) example_world)
           \<lparr>requests_made := Suc (requests_made (emit (RunPdftotext (ustr ''/d/a.pdf'')) example_world))\<rparr>))"
    for t by (rule readonly_generate)
  have ne: "page_text \<noteq> []" using page_text_strip by simp
  note a = rename_no_clobber [OF example_extract ne g [of "ustr ''Report''", unfolded example_titles]
      example_titles(2), of "[]" OSError]
  note b = rename_no_clobber [OF example_extract ne g [of "ustr ''a:b''", unfolded example_titles]
      example_titles(4), of "[37, 80, 68, 70]" OSError]
  note c = rename_no_clobber [OF readonly_extract ne g' [of "ustr ''a:b''", unfolded example_titles]
      example_titles(4), of "[]" OSError]
  have x: "fst (rename_pdf (readonly_env (ustr ''a:b'')) (ustr ''/d/a.pdf'') [] False default_model
          example_world) = Inl OSError \<and>
      fs (snd (rename_pdf (readonly_env (ustr ''a:b'')) (ustr ''/d/a.pdf'') [] False default_model
          example_world)) = fs example_world"
    using c example_files readonly_rename_error by (simp add: example_paths)
  show ?thesis using a b x example_files example_rename_error readonly_rename_error
    by (simp add: example_paths)
qed

section \<open>C8: OCR only as a fallback\<close>

text \<open>
  C8. If pdftotext succeeds on page 1 and its output, stripped, has at least 50
  characters, extract_text_from_first_page returns that text and the only thing it
  does is that one run of pdftotext: OCR is not invoked. If pdftotext completes with
  fewer than 50 characters, the run of pdftotext is followed by the OCR run, both in
  the extraction and in the whole of rename_pdf, so OCR comes before any request for
  a title.
\<close>

theorem fallback_ordering:
  "(pdftotext env p = Completed 0 out err \<and> 50 \<le> length (py_strip out) \<longrightarrow>
      extract_text_from_first_page env p w = (Inr (py_strip out), emit (RunPdftotext p) w)) \<and>
   (pdftotext env p = Completed returncode out err \<and> length (py_strip out) < 50 \<longrightarrow>
      prefix (trace w @ [RunPdftotext p, Log INFO FallbackToOcr, RunOcr p])
        (trace (snd (extract_text_from_first_page env p w))) \<and>
      prefix (trace w @ [RunPdftotext p, Log INFO FallbackToOcr, RunOcr p])
        (trace (snd (rename_pdf env p k dry m w))))"
proof -
  have a: "pdftotext env p = Completed 0 out err \<Longrightarrow> 50 \<le> length (py_strip out) \<Longrightarrow>
      extract_text_from_first_page env p w = (Inr (py_strip out), emit (RunPdftotext p) w)"
    by (simp add: extract_text_from_first_page_def)
  have b: "prefix (trace w @ [RunPdftotext p, Log INFO FallbackToOcr, RunOcr p])
        (trace (snd (extract_text_from_first_page env p w)))"
    if c: "pdftotext env p = Completed returncode out err" and l: "length (py_strip out) < 50"
  proof -
    have "extract_text_from_first_page env p w = ocr_fallback env p (emit (RunPdftotext p) w)"
      using c l by (simp add: extract_text_from_first_page_def)
    then show ?thesis
      using ocr_fallback_starts [of "emit (RunPdftotext p) w" p env] by simp
  qed
  have c: "prefix (trace w @ [RunPdftotext p, Log INFO FallbackToOcr, RunOcr p])
        (trace (snd (rename_pdf env p k dry m w)))"
    if "pdftotext env p = Completed returncode out err" and "length (py_strip out) < 50"
    using b [OF that] rename_pdf_extends [of env p w k dry m] by (rule prefix_order.trans)
  show ?thesis using a b c by blast
qed

theorem fallback_ordering_witness:
  "pdftotext (example_env (ustr ''Report'')) (ustr ''/d/a.pdf'') = Completed 0 page_text [] \<and>
   50 \<le> length (py_strip page_text) \<and>
   extract_text_from_first_page (example_env (ustr ''Report'')) (ustr ''/d/a.pdf'') example_world =
     (Inr page_text, emit (RunPdftotext (ustr ''/d/a.pdf'')) example_world) \<and>
   pdftotext scanned_env (ustr ''/d/a.pdf'') = Completed 0 [] [] \<and>
   length (py_strip []) < 50 \<and>
   prefix [RunPdftotext (ustr ''/d/a.pdf''), Log INFO FallbackToOcr, RunOcr (ustr ''/d/a.pdf'')]
     (trace (snd (rename_pdf scanned_env (ustr ''/d/a.pdf'') [] False default_model example_world)))"
proof -
  have 1: "pdftotext (example_env (ustr ''Report'')) (ustr ''/d/a.pdf'') = Completed 0 page_text []"
    by (simp add: example_env_def)
  have 2: "pdftotext scanned_env (ustr ''/d/a.pdf'') = Completed 0 [] []"
    by (simp add: scanned_env_def)
  have 3: "length (py_strip []) < 50" by (simp add: py_strip_Nil)
  have t: "trace example_world = []" by (simp add: example_world_def)
  show ?thesis
    using fallback_ordering [of "example_env (ustr ''Report'')" "ustr ''/d/a.pdf''" page_text "[]"
        example_world 0 "[]" False default_model]
      fallback_ordering [of scanned_env "ustr ''/d/a.pdf''" "[]" "[]" example_world 0 "[]" False
        default_model]
      1 2 3 t page_text_strip
    by simp
qed

section \<open>C9: errors of the service\<close>

text \<open>
  C9. When the service answers a request with a status code outside 200..299, or
  with a body that is not JSON or lacks the expected
  \<^verbatim>\<open>candidates[0].content.parts[0].text\<close>, generate_title_with_gemini returns the empty
  title: it raises nothing and makes exactly one request, so the call is not retried.
\<close>

theorem service_error_no_title:
  assumes "requests_post env (requests_made w) (request_url m k) (prompt @ [10] @ t) =
      Response status_code rtext js"
    and "status_code < 200 \<or> 299 < status_code \<or> js = Inl e \<or>
      (js = Inr body \<and> expected_text body = None)"
  shows "fst (generate_title_with_gemini env t k m w) = Inr [] \<and>
    requests_made (snd (generate_title_with_gemini env t k m w)) = Suc (requests_made w) \<and>
    filter (\<lambda>ev. ev = Post (request_url m k) (prompt @ [10] @ t))
      (drop (length (trace w)) (trace (snd (generate_title_with_gemini env t k m w)))) =
      [Post (request_url m k) (prompt @ [10] @ t)]"
proof -
  have v: "fst (generate_title_body env t k m w) = Inr []"
  proof (cases "status_code = 200")
    case True
    then show ?thesis using assms body_malformed [of env w m k t rtext js e body] by auto
  next
    case False
    then show ?thesis using body_status [OF assms(1)] by simp
  qed
  then have r: "generate_title_with_gemini env t k m w = generate_title_body env t k m w"
    unfolding generate_title_with_gemini_def by (rule retrying_once)
  have tr: "filter (\<lambda>ev. ev = Post (request_url m k) (prompt @ [10] @ t))
      (drop (length (trace w)) (trace (snd (generate_title_body env t k m w)))) =
      [Post (request_url m k) (prompt @ [10] @ t)]"
    using assms(1) by (simp add: generate_title_body_def Let_def split: sum.splits)
  show ?thesis using v r tr body_requests [of env t k m w] by simp
qed

theorem service_error_no_title_witness:
  "fst (generate_title_with_gemini (failing_env 500) page_text [] default_model example_world) = Inr [] \<and>
   requests_made (snd (generate_title_with_gemini (failing_env 500) page_text [] default_model
      example_world)) = 1 \<and>
   expected_text (JObject []) = None \<and>
   fst (generate_title_with_gemini (failing_env 200) page_text [] default_model example_world) = Inr [] \<and>
   requests_made (snd (generate_title_with_gemini (failing_env 200) page_text [] default_model
      example_world)) = 1"
proof -
  have r: "requests_post (failing_env s) (requests_made example_world) (request_url default_model [])
      (prompt @ [10] @ page_text) = Response s [] (Inr (JObject []))" for s
    by (simp add: failing_env_def)
  have x: "expected_text (JObject []) = None" by (simp add: expected_text_def)
  have n: "requests_made example_world = 0" by (simp add: example_world_def)
  have a: "(500::int) < 200 \<or> 299 < (500::int) \<or> Inr (JObject []) = Inl OtherException \<or>
      (Inr (JObject []) = (Inr (JObject []) :: exn + json) \<and> expected_text (JObject []) = None)"
    by simp
  have b: "(200::int) < 200 \<or> 299 < (200::int) \<or> Inr (JObject []) = Inl OtherException \<or>
      (Inr (JObject []) = (Inr (JObject []) :: exn + json) \<and> expected_text (JObject []) = None)"
    using x by simp
  show ?thesis
    using service_error_no_title [OF r a] service_error_no_title [OF r b] x n by simp
qed

section \<open>C10: a document that already has its name\<close>

text \<open>
  C10. If the destination computed for a document is the document's own path and the
  document exists, rename_pdf performs no rename and reports none: without dry run it
  takes the skip branch, the existence check finding the source itself; with dry run
  it only logs the proposal. In both cases the files stay as they were.
\<close>

theorem correctly_named_not_renamed:
  assumes "extract_text_from_first_page env p w = (Inr pdf_text, w1)" and "pdf_text \<noteq> []"
    and "generate_title_with_gemini env pdf_text k m w1 = (Inr title, w2)" and "title \<noteq> []"
    and "new_path_of p title = p" and "p \<in> dom (fs w)"
  shows "rename_pdf env p k dry m w =
      (Inr (), (if dry then log INFO (DryRunWouldRename (basename p) title) w2
                else log WARNING (AlreadyExistsSkipping (sanitize_filename title @ ustr ''.pdf'')) w2)) \<and>
    fs (snd (rename_pdf env p k dry m w)) = fs w \<and>
    filter is_rename (trace (snd (rename_pdf env p k dry m w))) = filter is_rename (trace w)"
proof -
  have q: "quiet w w2" using assms(1,3) by (rule stages_quiet)
  then have f: "fs w2 = fs w" and r: "filter is_rename (trace w2) = filter is_rename (trace w)"
    by (simp_all add: quiet_def)
  have x: "path_exists w2 (new_path_of p title)" using assms(5,6) f by (simp add: path_exists_def)
  show ?thesis using rename_pdf_staged [OF assms(1-4), of dry] x f r by simp
qed

theorem correctly_named_not_renamed_witness:
  "new_path_of (ustr ''/d/Report.pdf'') (ustr ''Report'') = ustr ''/d/Report.pdf'' \<and>
   ustr ''/d/Report.pdf'' \<in> dom (fs example_world) \<and>
   fst (rename_pdf (example_env (ustr ''Report'')) (ustr ''/d/Report.pdf'') [] False default_model
          example_world) = Inr () \<and>
   fs (snd (rename_pdf (example_env (ustr ''Report'')) (ustr ''/d/Report.pdf'') [] False
          default_model example_world)) = fs example_world"
proof -
  have g: "generate_title_with_gemini (example_env (ustr ''Report'')) page_text [] default_model
      (emit (RunPdftotext (ustr ''/d/Report.pdf'')) example_world) =
      (Inr (ustr ''Report''), emit (Post (request_url default_model []) (prompt @ [10] @ page_text))
         ((emit (RunPdftotext (ustr ''/d/Report.pdf'')) example_world)
           \<lparr>requests_made := Suc (requests_made (emit (RunPdftotext (ustr ''/d/Report.pdf'')) example_world))\<rparr>))"
    using example_generate [of "ustr ''Report''"] by (simp add: example_titles)
  have ne: "page_text \<noteq> []" using page_text_strip by simp
  show ?thesis
    using correctly_named_not_renamed [OF example_extract ne g example_titles(2) example_paths(2)
        example_files(1), of False]
    by (simp add: example_paths example_files)
qed

end
